theory Spec2Isabelle
  imports Main
begin

section \<open>Data model\<close>

text \<open>
  Modelled from the spec: the element types of a tensor (\<^verbatim>\<open>c10::ScalarType\<close>) and the two
  classifiers \<^verbatim>\<open>isIntegralType\<close> and \<^verbatim>\<open>isQIntType\<close> are declared in headers that are not part
  of the sources; the spec speaks of boolean/byte, non-boolean integral, floating-point
  and quantized element types. The names carry the \<^verbatim>\<open>k\<close> prefix the source uses for them
  (\<^verbatim>\<open>kByte\<close>, \<^verbatim>\<open>kBool\<close>, \<^verbatim>\<open>kLong\<close>, \<^verbatim>\<open>kFloat\<close>).
\<close>

datatype ScalarType =
  kByte | kChar | kShort | kInt | kLong | kHalf | kFloat | kDouble
  | kComplexHalf | kComplexFloat | kComplexDouble | kBool
  | kQInt8 | kQUInt8 | kQInt32 | kBFloat16

definition isIntegralType :: "ScalarType \<Rightarrow> bool \<Rightarrow> bool" where
  "isIntegralType t includeBool =
     (t = kByte \<or> t = kChar \<or> t = kInt \<or> t = kLong \<or> t = kShort \<or> (includeBool \<and> t = kBool))"

definition isQIntType :: "ScalarType \<Rightarrow> bool" where
  "isQIntType t = (t = kQInt8 \<or> t = kQUInt8 \<or> t = kQInt32)"

datatype Device = kCPU | kCUDA nat

record TensorOptions =
  options_dtype :: ScalarType
  options_device :: Device

text \<open>
  A tensor is a handle on a view object: \<open>impl\<close> is the identity of the view object
  (what \<^verbatim>\<open>is_same\<close> compares), \<open>storage\<close> names the buffer the view reads and writes, and
  offset, sizes and strides say which cells of the buffer the view covers. An undefined
  tensor (\<^verbatim>\<open>Tensor()\<close>) is \<open>None\<close> of \<open>Tensor option\<close>.
\<close>

record Tensor =
  impl :: nat
  storage :: nat
  storage_offset :: nat
  sizes :: "nat list"
  strides :: "nat list"
  scalar_type :: ScalarType
  device :: Device

text \<open>
  The program state: the next unused view identity and the contents of every storage
  buffer. Element values are integers (a boolean is 0 or 1); conversions between element
  types are not modelled.
\<close>

record State =
  next_impl :: nat
  storages :: "int list list"

datatype error =
  IndexingArity int
  | ShapeBroadcast
  | InternalAssert
  | PrimitiveError

record Slice =
  start :: int
  stop :: int
  step :: int
  start_tensor :: "Tensor option"
  stop_tensor :: "Tensor option"
  step_tensor :: "Tensor option"

text \<open>
  Modelled from the spec: the descriptor types \<^verbatim>\<open>Slice\<close> and \<^verbatim>\<open>TensorIndex\<close> are declared
  in \<^verbatim>\<open>TensorIndexing.h\<close>, which is not part of the sources. Section 3 of the spec: one
  position of an index expression is None, Ellipsis, an integer (with the index array it
  was read from, when there is one: \<^verbatim>\<open>is_integer_with_tensor\<close>), a boolean, a range or
  an index array.
\<close>

datatype TensorIndex =
  IdxNone
  | IdxEllipsis
  | IdxInteger int "Tensor option"
  | IdxBoolean bool
  | IdxSlice Slice
  | IdxTensor Tensor

definition dim :: "Tensor \<Rightarrow> int" where
  "dim t = int (length (sizes t))"

definition options :: "Tensor \<Rightarrow> TensorOptions" where
  "options t = \<lparr>options_dtype = scalar_type t, options_device = device t\<rparr>"

definition is_same :: "Tensor \<Rightarrow> Tensor \<Rightarrow> bool" where
  "is_same a b = (impl a = impl b)"

section \<open>Reading a view\<close>

fun all_indices :: "nat list \<Rightarrow> nat list list" where
  "all_indices [] = [[]]"
| "all_indices (n # ns) = concat (map (\<lambda>i. map ((#) i) (all_indices ns)) [0..<n])"

definition address :: "Tensor \<Rightarrow> nat list \<Rightarrow> nat" where
  "address t idx = storage_offset t + sum_list (map2 (*) idx (strides t))"

definition read_at :: "State \<Rightarrow> nat \<Rightarrow> nat \<Rightarrow> int" where
  "read_at st sid a =
     (if sid < length (storages st) then
        (if a < length (storages st ! sid) then storages st ! sid ! a else 0)
      else 0)"

definition elements :: "State \<Rightarrow> Tensor \<Rightarrow> int list" where
  "elements st t = map (\<lambda>idx. read_at st (storage t) (address t idx)) (all_indices (sizes t))"

definition item :: "State \<Rightarrow> Tensor \<Rightarrow> int" where
  "item st t = read_at st (storage t) (storage_offset t)"

section \<open>The primitives of the tensor library\<close>

text \<open>
  Modelled from the spec: the view and allocation primitives (\<^verbatim>\<open>alias\<close>, \<^verbatim>\<open>unsqueeze\<close>,
  \<^verbatim>\<open>applySelect\<close>, \<^verbatim>\<open>applySlice\<close>, \<^verbatim>\<open>zeros\<close>, \<^verbatim>\<open>empty\<close>, \<^verbatim>\<open>scalar_tensor\<close>, \<^verbatim>\<open>to\<close>) live in
  files that are not part of the sources. Section 6 of the spec gives their contracts:
  a view primitive returns a new view object on the same storage, an allocation returns
  a tensor on a new storage, and a primitive that cannot do its work fails with an error
  of its own.
\<close>

definition new_view :: "State \<Rightarrow> Tensor \<Rightarrow> Tensor \<times> State" where
  "new_view st t = (t\<lparr>impl := next_impl st\<rparr>, st\<lparr>next_impl := Suc (next_impl st)\<rparr>)"

definition alias_tensor :: "State \<Rightarrow> Tensor \<Rightarrow> Tensor \<times> State" where
  "alias_tensor st t = new_view st t"

definition insert_at :: "nat \<Rightarrow> 'a \<Rightarrow> 'a list \<Rightarrow> 'a list" where
  "insert_at n x xs = take n xs @ x # drop n xs"

definition remove_at :: "nat \<Rightarrow> 'a list \<Rightarrow> 'a list" where
  "remove_at n xs = take n xs @ drop (Suc n) xs"

text \<open>
  \<^verbatim>\<open>unsqueeze(view, dim)\<close>: a view with a size-1 dimension inserted at \<open>dim\<close>. The stride
  given to the new dimension never contributes to an address, since its only index is 0.
\<close>

definition unsqueeze :: "State \<Rightarrow> Tensor \<Rightarrow> int \<Rightarrow> error + (Tensor \<times> State)" where
  "unsqueeze st t d =
     (if 0 \<le> d \<and> d \<le> dim t then
        (let n = nat d;
             new_stride = (if n < length (sizes t) then sizes t ! n * strides t ! n else 1)
         in Inr (new_view st (t\<lparr>sizes := insert_at n 1 (sizes t),
                                 strides := insert_at n new_stride (strides t)\<rparr>)))
      else Inl PrimitiveError)"

text \<open>
  \<^verbatim>\<open>select(view, dim, index, [provenance])\<close>: a view with \<open>dim\<close> removed; a negative index
  counts from the end; an out-of-range dimension or index is a primitive error. The
  provenance array and the position of the descriptor only serve tracing and messages.
\<close>

definition applySelect ::
  "State \<Rightarrow> Tensor \<Rightarrow> int \<Rightarrow> int \<Rightarrow> Tensor option \<Rightarrow> int \<Rightarrow> error + (Tensor \<times> State)" where
  "applySelect st t d index provenance real_dim =
     (if 0 \<le> d \<and> d < dim t then
        (let n = nat d; sz = int (sizes t ! n) in
         if - sz \<le> index \<and> index < sz then
           (let i = nat (if index < 0 then index + sz else index) in
            Inr (new_view st (t\<lparr>storage_offset := storage_offset t + i * strides t ! n,
                                 sizes := remove_at n (sizes t),
                                 strides := remove_at n (strides t)\<rparr>)))
         else Inl PrimitiveError)
      else Inl PrimitiveError)"

text \<open>
  \<^verbatim>\<open>slice(view, dim, start, stop, step, ...)\<close>: a view with \<open>dim\<close> narrowed to the
  half-open range; negative bounds count from the end and both bounds are clamped to the
  dimension. The dynamic sources of the bounds and the boolean flag of the top-level read
  do not change which cells the view covers.
\<close>

definition clamp_bound :: "int \<Rightarrow> int \<Rightarrow> int" where
  "clamp_bound sz b = (let b' = (if b < 0 then b + sz else b) in max 0 (min sz b'))"

definition applySlice ::
  "State \<Rightarrow> Tensor \<Rightarrow> int \<Rightarrow> int \<Rightarrow> int \<Rightarrow> int \<Rightarrow> Tensor option \<Rightarrow> Tensor option \<Rightarrow> Tensor option
     \<Rightarrow> bool \<Rightarrow> error + (Tensor \<times> State)" where
  "applySlice st t d start_v stop_v step_v start_t stop_t step_t flag =
     (if 0 \<le> d \<and> d < dim t \<and> 0 < step_v then
        (let n = nat d; sz = int (sizes t ! n);
             b = clamp_bound sz start_v;
             e = max b (clamp_bound sz stop_v);
             len = nat ((e - b + step_v - 1) div step_v)
         in Inr (new_view st (t\<lparr>storage_offset := storage_offset t + nat b * strides t ! n,
                                 sizes := (sizes t)[n := len],
                                 strides := (strides t)[n := strides t ! n * nat step_v]\<rparr>)))
      else Inl PrimitiveError)"

fun contiguous_strides :: "nat list \<Rightarrow> nat list" where
  "contiguous_strides [] = []"
| "contiguous_strides (n # ns) = prod_list ns # contiguous_strides ns"

text \<open>A new tensor on a new storage that holds the given elements in row-major order.\<close>

definition new_tensor :: "State \<Rightarrow> nat list \<Rightarrow> TensorOptions \<Rightarrow> int list \<Rightarrow> Tensor \<times> State" where
  "new_tensor st shape opts vals =
     (\<lparr>impl = next_impl st, storage = length (storages st), storage_offset = 0,
       sizes = shape, strides = contiguous_strides shape,
       scalar_type = options_dtype opts, device = options_device opts\<rparr>,
      st\<lparr>next_impl := Suc (next_impl st), storages := storages st @ [vals]\<rparr>)"

definition zeros :: "State \<Rightarrow> nat list \<Rightarrow> TensorOptions \<Rightarrow> Tensor \<times> State" where
  "zeros st shape opts = new_tensor st shape opts (replicate (prod_list shape) 0)"

text \<open>The contents of an \<^verbatim>\<open>empty\<close> tensor are arbitrary; the model fills them with 0.\<close>

definition empty_tensor :: "State \<Rightarrow> nat list \<Rightarrow> TensorOptions \<Rightarrow> Tensor \<times> State" where
  "empty_tensor st shape opts = new_tensor st shape opts (replicate (prod_list shape) 0)"

definition scalar_tensor :: "State \<Rightarrow> int \<Rightarrow> TensorOptions \<Rightarrow> Tensor \<times> State" where
  "scalar_tensor st v opts = new_tensor st [] opts [v]"

text \<open>
  \<^verbatim>\<open>to(array, dtype/placement)\<close>: the converted array, the same object when it already
  matches.
\<close>

definition to :: "State \<Rightarrow> Tensor \<Rightarrow> TensorOptions \<Rightarrow> Tensor \<times> State" where
  "to st t opts =
     (if options t = opts then (t, st) else new_tensor st (sizes t) opts (elements st t))"

section \<open>The Dimension Counter\<close>

text \<open>The body of the loop of \<^verbatim>\<open>count_specified_dimensions\<close>, in the order of its tests.\<close>

fun count_obj :: "int \<Rightarrow> TensorIndex \<Rightarrow> int" where
  "count_obj count (IdxTensor tensor) =
     (if scalar_type tensor = kByte \<or> scalar_type tensor = kBool then count + dim tensor
      else count + 1)"
| "count_obj count IdxNone = count"
| "count_obj count IdxEllipsis = count"
| "count_obj count (IdxBoolean b) = count"
| "count_obj count obj = count + 1"

definition count_specified_dimensions :: "TensorIndex list \<Rightarrow> int" where
  "count_specified_dimensions indices = foldl count_obj 0 indices"

section \<open>The Slicing Applier\<close>

definition valueToTensor :: "State \<Rightarrow> TensorOptions \<Rightarrow> int \<Rightarrow> Tensor \<times> State" where
  "valueToTensor st opts v = scalar_tensor st v opts"

definition boolToIndexingTensor :: "State \<Rightarrow> Tensor \<Rightarrow> bool \<Rightarrow> Tensor \<times> State" where
  "boolToIndexingTensor st self v =
     (if v then zeros st [1] ((options self)\<lparr>options_dtype := kLong\<rparr>)
      else empty_tensor st [0] ((options self)\<lparr>options_dtype := kLong\<rparr>))"

text \<open>\<^verbatim>\<open>std::vector::resize\<close>: cut to \<open>n\<close> entries or pad with undefined tensors.\<close>

definition resize :: "Tensor option list \<Rightarrow> nat \<Rightarrow> Tensor option list" where
  "resize v n = take n v @ replicate (n - length v) None"

text \<open>
  The lambda \<^verbatim>\<open>handle_tensor\<close> of \<^verbatim>\<open>applySlicing\<close>, on the two variables it captures and
  changes: the cursor \<open>dim\<close> and the list \<open>outIndices\<close>.
\<close>

definition handle_tensor :: "int \<Rightarrow> Tensor option list \<Rightarrow> Tensor \<Rightarrow> int \<times> Tensor option list" where
  "handle_tensor d outIndices tensor =
     (d + 1, (resize outIndices (nat (d + 1)))[nat d := Some tensor])"

text \<open>
  One turn of the loop of \<^verbatim>\<open>applySlicing\<close> on the descriptor at position \<open>i\<close>. The loop
  variables are the running result, the cursor, the pending advanced indices and the
  program state. The branches come in the order of the source; its last branch, the
  internal assertion for a descriptor of no kind, has no descriptor to reach it.
\<close>

fun applySlicing_body ::
  "Tensor \<Rightarrow> int \<Rightarrow> Tensor \<times> int \<times> Tensor option list \<times> State \<Rightarrow> int \<Rightarrow> TensorIndex
     \<Rightarrow> error + (Tensor \<times> int \<times> Tensor option list \<times> State)" where
  "applySlicing_body self specified_dims (result, d, outIndices, st) i (IdxInteger n prov) =
     (case applySelect st result d n prov i of
        Inl e \<Rightarrow> Inl e
      | Inr (r, st') \<Rightarrow> Inr (r, d, outIndices, st'))"
| "applySlicing_body self specified_dims (result, d, outIndices, st) i (IdxSlice s) =
     (case applySlice st result d (start s) (stop s) (step s)
             (start_tensor s) (stop_tensor s) (step_tensor s) False of
        Inl e \<Rightarrow> Inl e
      | Inr (r, st') \<Rightarrow> Inr (r, d + 1, outIndices, st'))"
| "applySlicing_body self specified_dims (result, d, outIndices, st) i IdxEllipsis =
     Inr (result, d + (dim self - specified_dims), outIndices, st)"
| "applySlicing_body self specified_dims (result, d, outIndices, st) i IdxNone =
     (case unsqueeze st result d of
        Inl e \<Rightarrow> Inl e
      | Inr (r, st') \<Rightarrow> Inr (r, d + 1, outIndices, st'))"
| "applySlicing_body self specified_dims (result, d, outIndices, st) i (IdxBoolean b) =
     (case unsqueeze st result d of
        Inl e \<Rightarrow> Inl e
      | Inr (r, st1) \<Rightarrow>
          (let (t, st2) = boolToIndexingTensor st1 r b;
               (d', out') = handle_tensor d outIndices t
           in Inr (r, d', out', st2)))"
| "applySlicing_body self specified_dims (result, d, outIndices, st) i (IdxTensor tensor) =
     (if dim tensor = 0 \<and> isIntegralType (scalar_type tensor) True then
        (if scalar_type tensor \<noteq> kByte \<and> scalar_type tensor \<noteq> kBool then
           (case applySelect st result d (item st tensor) (Some tensor) i of
              Inl e \<Rightarrow> Inl e
            | Inr (r, st') \<Rightarrow> Inr (r, d, outIndices, st'))
         else
           (case unsqueeze st result d of
              Inl e \<Rightarrow> Inl e
            | Inr (r, st1) \<Rightarrow>
                (let (t, st2) = boolToIndexingTensor st1 r (item st tensor \<noteq> 0);
                     (d', out') = handle_tensor d outIndices t
                 in Inr (r, d', out', st2))))
      else
        (let (d', out') = handle_tensor d outIndices tensor
         in Inr (result, d', out', st)))"

fun applySlicing_loop ::
  "Tensor \<Rightarrow> int \<Rightarrow> Tensor \<times> int \<times> Tensor option list \<times> State \<Rightarrow> int \<Rightarrow> TensorIndex list
     \<Rightarrow> error + (Tensor \<times> int \<times> Tensor option list \<times> State)" where
  "applySlicing_loop self specified_dims vars i [] = Inr vars"
| "applySlicing_loop self specified_dims vars i (obj # objs) =
     (case applySlicing_body self specified_dims vars i obj of
        Inl e \<Rightarrow> Inl e
      | Inr vars' \<Rightarrow> applySlicing_loop self specified_dims vars' (i + 1) objs)"

text \<open>
  \<^verbatim>\<open>applySlicing\<close> returns the basic view; the pending advanced indices, which the source
  hands back through the reference \<^verbatim>\<open>outIndices\<close>, and the program state come with it.
\<close>

definition applySlicing ::
  "State \<Rightarrow> Tensor \<Rightarrow> TensorIndex list \<Rightarrow> Tensor option list
     \<Rightarrow> error + (Tensor \<times> Tensor option list \<times> State)" where
  "applySlicing st self indices outIndices =
     (let specified_dims = count_specified_dimensions indices in
      if specified_dims \<le> dim self then
        (case applySlicing_loop self specified_dims (self, 0, outIndices, st) 0 indices of
           Inl e \<Rightarrow> Inl e
         | Inr (result, d, out, st') \<Rightarrow> Inr (result, out, st'))
      else Inl (IndexingArity (dim self)))"

section \<open>Broadcasting, copying, gathering and scattering\<close>

text \<open>
  Modelled from the spec: \<^verbatim>\<open>view\<close>, \<^verbatim>\<open>expand\<close>, \<^verbatim>\<open>expand_inplace\<close>, \<^verbatim>\<open>copy_\<close>, \<^verbatim>\<open>index\<close>
  and \<^verbatim>\<open>index_put_\<close> are primitives of the tensor library and not part of the sources.
  Section 6 of the spec: \<^verbatim>\<open>expand(value, shape)\<close> is a broadcast view, no copy, and fails
  if incompatible; \<^verbatim>\<open>copy(dst_view, src_view)\<close> is an element-wise in-place write;
  \<^verbatim>\<open>gather(view, ordered_index_arrays)\<close> is a new array;
  \<^verbatim>\<open>scatter(view, ordered_index_arrays, value)\<close> is an in-place write. Broadcasting
  aligns shapes at their last dimension and stretches dimensions of size 1. A name cannot
  end with an underscore here, so \<^verbatim>\<open>copy_\<close>, \<^verbatim>\<open>index_put_\<close> and \<^verbatim>\<open>dispatch_index_put_\<close> are
  \<open>copy_inplace\<close>, \<open>index_put_inplace\<close> and \<open>dispatch_index_put_inplace\<close>.
\<close>

fun expand_geometry :: "nat list \<Rightarrow> nat list \<Rightarrow> nat list \<Rightarrow> nat list option" where
  "expand_geometry [] [] [] = Some []"
| "expand_geometry (s # ss) (r # rs) (t # ts) =
     (if s = t then map_option ((#) r) (expand_geometry ss rs ts)
      else if s = 1 then map_option ((#) 0) (expand_geometry ss rs ts)
      else None)"
| "expand_geometry ss rs ts = None"

definition expand :: "State \<Rightarrow> Tensor \<Rightarrow> nat list \<Rightarrow> error + (Tensor \<times> State)" where
  "expand st t target =
     (let pad = length target - length (sizes t) in
      if length (sizes t) \<le> length target then
        (case expand_geometry (sizes t) (strides t) (drop pad target) of
           None \<Rightarrow> Inl ShapeBroadcast
         | Some strs \<Rightarrow>
             Inr (new_view st (t\<lparr>sizes := target, strides := replicate pad 0 @ strs\<rparr>)))
      else Inl ShapeBroadcast)"

text \<open>
  \<^verbatim>\<open>expand_inplace(tensor, to_expand)\<close>: \<open>to_expand\<close> itself when the shapes agree, else
  \<open>to_expand\<close> expanded to the shape of \<open>tensor\<close>.
\<close>

definition expand_inplace :: "State \<Rightarrow> Tensor \<Rightarrow> Tensor \<Rightarrow> error + (Tensor \<times> State)" where
  "expand_inplace st tensor to_expand =
     (if sizes tensor = sizes to_expand then Inr (to_expand, st)
      else expand st to_expand (sizes tensor))"

text \<open>
  \<^verbatim>\<open>view(shape)\<close>: the same cells under another shape. The source only asks for the
  tensor's own shape without leading dimensions of size 1; then the strides of the
  dimensions that stay are kept. Any other shape of as many elements is given to a
  tensor whose cells lie in row-major order; what the library does for the remaining
  tensors is not described, and the model refuses them.
\<close>

definition view :: "State \<Rightarrow> Tensor \<Rightarrow> nat list \<Rightarrow> error + (Tensor \<times> State)" where
  "view st t shape =
     (let k = length (sizes t) - length shape in
      if prod_list shape = prod_list (sizes t) then
        (if length shape \<le> length (sizes t) \<and> drop k (sizes t) = shape then
           Inr (new_view st (t\<lparr>sizes := shape, strides := drop k (strides t)\<rparr>))
         else if strides t = contiguous_strides (sizes t) then
           Inr (new_view st (t\<lparr>sizes := shape, strides := contiguous_strides shape\<rparr>))
         else Inl PrimitiveError)
      else Inl PrimitiveError)"

definition write_cells :: "int list \<Rightarrow> (nat \<times> int) list \<Rightarrow> int list" where
  "write_cells buf ws = foldl (\<lambda>b (a, v). b[a := v]) buf ws"

definition write_storage :: "State \<Rightarrow> nat \<Rightarrow> (nat \<times> int) list \<Rightarrow> State" where
  "write_storage st sid ws =
     (if sid < length (storages st) then
        st\<lparr>storages := (storages st)[sid := write_cells (storages st ! sid) ws]\<rparr>
      else st)"

definition copy_inplace :: "State \<Rightarrow> Tensor \<Rightarrow> Tensor \<Rightarrow> error + State" where
  "copy_inplace st dst src =
     (if sizes dst = sizes src then
        Inr (write_storage st (storage dst)
               (zip (map (address dst) (all_indices (sizes dst))) (elements st src)))
      else Inl PrimitiveError)"

text \<open>An index array by value: its shape and its entries in row-major order.\<close>

type_synonym IndexValues = "nat list \<times> int list"

definition flat_index :: "nat list \<Rightarrow> nat list \<Rightarrow> nat" where
  "flat_index shape idx = sum_list (map2 (*) idx (contiguous_strides shape))"

fun broadcast_rev :: "nat list \<Rightarrow> nat list \<Rightarrow> nat list option" where
  "broadcast_rev [] ys = Some ys"
| "broadcast_rev (x # xs) [] = Some (x # xs)"
| "broadcast_rev (x # xs) (y # ys) =
     (if x = y \<or> y = 1 then map_option ((#) x) (broadcast_rev xs ys)
      else if x = 1 then map_option ((#) y) (broadcast_rev xs ys)
      else None)"

definition broadcast_shapes :: "nat list \<Rightarrow> nat list \<Rightarrow> nat list option" where
  "broadcast_shapes a b = map_option rev (broadcast_rev (rev a) (rev b))"

fun broadcast_all :: "nat list list \<Rightarrow> nat list option" where
  "broadcast_all [] = Some []"
| "broadcast_all (s # ss) =
     (case broadcast_all ss of None \<Rightarrow> None | Some b \<Rightarrow> broadcast_shapes s b)"

definition broadcast_index :: "nat list \<Rightarrow> nat list \<Rightarrow> nat list" where
  "broadcast_index shape bidx =
     map2 (\<lambda>n i. if n = 1 then 0 else i) shape (drop (length bidx - length shape) bidx)"

definition broadcast_values :: "IndexValues \<Rightarrow> nat list \<Rightarrow> int list" where
  "broadcast_values iv b =
     map (\<lambda>bidx. snd iv ! flat_index (fst iv) (broadcast_index (fst iv) bidx)) (all_indices b)"

text \<open>
  The index arrays by value, one per source dimension they act on. A boolean/byte
  array (a mask) must have the shape of the source dimensions it covers and stands for one
  array of coordinates per dimension of the mask, listing the positions where the mask
  is not 0. An array of another integral type is taken as it is; any other element type
  is a primitive error. An undefined entry stays a hole.
\<close>

fun index_arrays ::
  "State \<Rightarrow> nat list \<Rightarrow> Tensor option list \<Rightarrow> error + IndexValues option list" where
  "index_arrays st szs [] = Inr []"
| "index_arrays st szs (None # rest) =
     (case index_arrays st (drop 1 szs) rest of
        Inl e \<Rightarrow> Inl e
      | Inr ivs \<Rightarrow> Inr (None # ivs))"
| "index_arrays st szs (Some t # rest) =
     (if scalar_type t = kByte \<or> scalar_type t = kBool then
        (let k = length (sizes t) in
         if take k szs = sizes t then
           (let coords = map fst (filter (\<lambda>(idx, v). v \<noteq> 0)
                                    (zip (all_indices (sizes t)) (elements st t)));
                cols = map (\<lambda>j. Some ([length coords], map (\<lambda>c. int (c ! j)) coords)) [0..<k]
            in case index_arrays st (drop k szs) rest of
                 Inl e \<Rightarrow> Inl e
               | Inr ivs \<Rightarrow> Inr (cols @ ivs))
         else Inl PrimitiveError)
      else if isIntegralType (scalar_type t) False then
        (case index_arrays st (drop 1 szs) rest of
           Inl e \<Rightarrow> Inl e
         | Inr ivs \<Rightarrow> Inr (Some (sizes t, elements st t) # ivs))
      else Inl PrimitiveError)"

text \<open>
  The source position of one element of the result: a hole takes the next coordinate of
  the dimensions that are kept, an indexed dimension takes the entry of its index array
  at the position \<open>bpos\<close> of the broadcast block; a negative entry counts from the end
  and an entry outside the dimension is an error.
\<close>

fun assemble :: "nat list \<Rightarrow> int list option list \<Rightarrow> nat \<Rightarrow> nat list \<Rightarrow> nat list option" where
  "assemble [] [] bpos hs = Some []"
| "assemble (n # ns) (None # vs) bpos (h # hs) = map_option ((#) h) (assemble ns vs bpos hs)"
| "assemble (n # ns) (Some xs # vs) bpos hs =
     (let v = xs ! bpos in
      if - int n \<le> v \<and> v < int n then
        map_option ((#) (nat (if v < 0 then v + int n else v))) (assemble ns vs bpos hs)
      else None)"
| "assemble ns vs bpos hs = None"

text \<open>
  The dimensions an index array acts on, the dimensions that are holes, the shape the
  index arrays are broadcast to (the block), and the place of the block in the result:
  when the indexed dimensions are next to each other the block takes their place,
  otherwise it comes first.
\<close>

definition defined_dims :: "IndexValues option list \<Rightarrow> nat list" where
  "defined_dims ivs = filter (\<lambda>p. ivs ! p \<noteq> None) [0..<length ivs]"

definition hole_dims :: "IndexValues option list \<Rightarrow> nat list" where
  "hole_dims ivs = filter (\<lambda>p. ivs ! p = None) [0..<length ivs]"

definition block_shape :: "IndexValues option list \<Rightarrow> nat list option" where
  "block_shape ivs = broadcast_all (map fst (List.map_filter id ivs))"

definition block_position :: "nat list \<Rightarrow> nat" where
  "block_position defined =
     (let first = (case defined of [] \<Rightarrow> 0 | p # ps \<Rightarrow> p)
      in if defined = [first..<first + length defined] then first else 0)"

definition result_shape :: "nat list \<Rightarrow> IndexValues option list \<Rightarrow> nat list \<Rightarrow> nat list" where
  "result_shape szs ivs b =
     (let nb = block_position (defined_dims ivs);
          hole_sizes = map (\<lambda>p. szs ! p) (hole_dims ivs)
      in take nb hole_sizes @ b @ drop nb hole_sizes)"

text \<open>The source position that the position \<open>r\<close> of the result stands for.\<close>

definition source_of ::
  "nat list \<Rightarrow> IndexValues option list \<Rightarrow> nat list \<Rightarrow> nat list \<Rightarrow> nat list option" where
  "source_of szs ivs b r =
     (let nb = block_position (defined_dims ivs);
          vals = map (map_option (\<lambda>iv. broadcast_values iv b)) ivs
      in assemble szs vals (flat_index b (take (length b) (drop nb r)))
           (take nb r @ drop (nb + length b) r))"

text \<open>
  The shape of the result of advanced indexing and, for each of its elements in
  row-major order, the source position it stands for. More index arrays than the source
  has dimensions, index arrays that cannot be broadcast to one shape and an entry
  outside its dimension are primitive errors.
\<close>

definition index_plan ::
  "State \<Rightarrow> Tensor \<Rightarrow> Tensor option list \<Rightarrow> error + (nat list \<times> nat list list)" where
  "index_plan st self indices =
     (case index_arrays st (sizes self) indices of
        Inl e \<Rightarrow> Inl e
      | Inr ivs0 \<Rightarrow>
          if length (sizes self) < length ivs0 then Inl PrimitiveError
          else
            (let ivs = ivs0 @ replicate (length (sizes self) - length ivs0) None
             in case block_shape ivs of
                  None \<Rightarrow> Inl PrimitiveError
                | Some b \<Rightarrow>
                    (let shape = result_shape (sizes self) ivs b;
                         sources = map (source_of (sizes self) ivs b) (all_indices shape)
                     in if list_all (\<lambda>s. s \<noteq> None) sources then Inr (shape, map the sources)
                        else Inl PrimitiveError)))"

definition index :: "State \<Rightarrow> Tensor \<Rightarrow> Tensor option list \<Rightarrow> error + (Tensor \<times> State)" where
  "index st self indices =
     (case index_plan st self indices of
        Inl e \<Rightarrow> Inl e
      | Inr (shape, sources) \<Rightarrow>
          Inr (new_tensor st shape (options self)
                 (map (\<lambda>s. read_at st (storage self) (address self s)) sources)))"

definition index_put_inplace :: "State \<Rightarrow> Tensor \<Rightarrow> Tensor option list \<Rightarrow> Tensor \<Rightarrow> error + State" where
  "index_put_inplace st self indices value =
     (case index_plan st self indices of
        Inl e \<Rightarrow> Inl e
      | Inr (shape, sources) \<Rightarrow>
          (case (if sizes value = shape then Inr (value, st) else expand st value shape) of
             Inl e \<Rightarrow> Inl e
           | Inr (v, st1) \<Rightarrow>
               Inr (write_storage st1 (storage self)
                      (zip (map (address self) sources) (elements st1 v)))))"

section \<open>The Advanced Index Dispatcher\<close>

fun typeConvertIndices ::
  "State \<Rightarrow> Tensor \<Rightarrow> Tensor option list \<Rightarrow> Tensor option list \<times> State" where
  "typeConvertIndices st self [] = ([], st)"
| "typeConvertIndices st self (None # indices) =
     (let (converted_inds, st') = typeConvertIndices st self indices
      in (None # converted_inds, st'))"
| "typeConvertIndices st self (Some ind # indices) =
     (let (c, st1) = to st ind ((options ind)\<lparr>options_device := device self\<rparr>);
          (converted_inds, st2) = typeConvertIndices st1 self indices
      in (Some c # converted_inds, st2))"

definition dispatch_index ::
  "State \<Rightarrow> Tensor \<Rightarrow> Tensor option list \<Rightarrow> error + (Tensor \<times> State)" where
  "dispatch_index st self indices =
     (let (converted_indices, st1) = typeConvertIndices st self indices
      in index st1 self converted_indices)"

definition dispatch_index_put_inplace ::
  "State \<Rightarrow> Tensor \<Rightarrow> Tensor option list \<Rightarrow> Tensor \<Rightarrow> error + State" where
  "dispatch_index_put_inplace st self indices value =
     (let (converted_indices, st1) = typeConvertIndices st self indices
      in index_put_inplace st1 self converted_indices value)"

section \<open>The Getter\<close>

text \<open>
  The single-descriptor branches of \<^verbatim>\<open>get_item\<close>: \<open>Some\<close> of what the branch returns,
  \<open>None\<close> when no branch is taken and control falls through to the general path.
\<close>

fun get_item_simple ::
  "State \<Rightarrow> Tensor \<Rightarrow> TensorIndex \<Rightarrow> (error + (Tensor \<times> State)) option" where
  "get_item_simple st self IdxNone = Some (unsqueeze st self 0)"
| "get_item_simple st self IdxEllipsis = Some (Inr (alias_tensor st self))"
| "get_item_simple st self (IdxInteger n prov) = Some (applySelect st self 0 n prov 0)"
| "get_item_simple st self (IdxSlice s) =
     Some (applySlice st self 0 (start s) (stop s) (step s)
             (start_tensor s) (stop_tensor s) (step_tensor s) True)"
| "get_item_simple st self obj = None"

definition get_item :: "State \<Rightarrow> Tensor \<Rightarrow> TensorIndex list \<Rightarrow> error + (Tensor \<times> State)" where
  "get_item st self indices =
     (case (if length indices = 1 then get_item_simple st self (indices ! 0) else None) of
        Some r \<Rightarrow> r
      | None \<Rightarrow>
          (case applySlicing st self indices [] of
             Inl e \<Rightarrow> Inl e
           | Inr (sliced, tensorIndices, st1) \<Rightarrow>
               if tensorIndices = [] then
                 (if is_same sliced self then Inr (alias_tensor st1 sliced)
                  else Inr (sliced, st1))
               else dispatch_index st1 sliced tensorIndices))"

section \<open>The Setter\<close>

text \<open>
  The loop of \<^verbatim>\<open>slicePrefix1sSize\<close>: the first position from \<open>i\<close> on whose size is not 1,
  or the number of dimensions when there is none.
\<close>

function first_non1_src :: "nat list \<Rightarrow> nat \<Rightarrow> nat" where
  "first_non1_src szs i =
     (if i < length szs then (if szs ! i \<noteq> 1 then i else first_non1_src szs (i + 1))
      else length szs)"
  by pat_completeness auto
termination
  by (relation "measure (\<lambda>(szs, i). length szs - i)") auto

definition slicePrefix1sSize :: "nat list \<Rightarrow> nat list" where
  "slicePrefix1sSize szs = drop (first_non1_src szs 0) szs"

definition copy_to :: "State \<Rightarrow> Tensor \<Rightarrow> Tensor \<Rightarrow> error + State" where
  "copy_to st dst src =
     (let sliced_src_sizes = slicePrefix1sSize (sizes src) in
      case view st src sliced_src_sizes of
        Inl e \<Rightarrow> Inl e
      | Inr (v, st1) \<Rightarrow>
          (case expand_inplace st1 dst v of
             Inl e \<Rightarrow> Inl e
           | Inr (b_src, st2) \<Rightarrow> copy_inplace st2 dst b_src))"

text \<open>
  The single-descriptor branches of \<^verbatim>\<open>set_item\<close> for a tensor value, in the order of the
  source: \<open>Some\<close> of the outcome when a branch returns, \<open>None\<close> when control falls through.
\<close>

fun set_item_simple ::
  "State \<Rightarrow> Tensor \<Rightarrow> TensorIndex \<Rightarrow> Tensor \<Rightarrow> (error + State) option" where
  "set_item_simple st self (IdxBoolean b) value =
     (if \<not> b then Some (Inr st)
      else Some (case unsqueeze st self 0 of
                   Inl e \<Rightarrow> Inl e
                 | Inr (u, st1) \<Rightarrow> copy_to st1 u value))"
| "set_item_simple st self IdxEllipsis value = Some (copy_to st self value)"
| "set_item_simple st self IdxNone value =
     Some (case unsqueeze st self 0 of
             Inl e \<Rightarrow> Inl e
           | Inr (u, st1) \<Rightarrow> copy_to st1 u value)"
| "set_item_simple st self (IdxInteger n prov) value =
     Some (case applySelect st self 0 n prov 0 of
             Inl e \<Rightarrow> Inl e
           | Inr (s, st1) \<Rightarrow> copy_to st1 s value)"
| "set_item_simple st self (IdxSlice s) value =
     Some (case applySlice st self 0 (start s) (stop s) (step s)
                  (start_tensor s) (stop_tensor s) (step_tensor s) False of
             Inl e \<Rightarrow> Inl e
           | Inr (s', st1) \<Rightarrow> copy_to st1 s' value)"
| "set_item_simple st self (IdxTensor t) value = None"

definition set_item :: "State \<Rightarrow> Tensor \<Rightarrow> TensorIndex list \<Rightarrow> Tensor \<Rightarrow> error + State" where
  "set_item st self indices value =
     (case (if length indices = 1 then set_item_simple st self (indices ! 0) value else None) of
        Some r \<Rightarrow> r
      | None \<Rightarrow>
          (case applySlicing st self indices [] of
             Inl e \<Rightarrow> Inl e
           | Inr (sliced, tensorIndices, st1) \<Rightarrow>
               if tensorIndices = [] then copy_to st1 sliced value
               else
                 (let slicedValueSizes = slicePrefix1sSize (sizes value) in
                  case (if sizes value \<noteq> slicedValueSizes then view st1 value slicedValueSizes
                        else Inr (value, st1)) of
                    Inl e \<Rightarrow> Inl e
                  | Inr (valuesSliced, st2) \<Rightarrow>
                      dispatch_index_put_inplace st2 sliced tensorIndices valuesSliced)))"

text \<open>The overload of \<^verbatim>\<open>set_item\<close> for a scalar value.\<close>

definition set_item_scalar :: "State \<Rightarrow> Tensor \<Rightarrow> TensorIndex list \<Rightarrow> int \<Rightarrow> error + State" where
  "set_item_scalar st self indices v =
     (let (value, st1) =
            (if isQIntType (scalar_type self) then
               valueToTensor st \<lparr>options_dtype = kFloat, options_device = kCPU\<rparr> v
             else valueToTensor st (options self) v)
      in set_item st1 self indices value)"

section \<open>Concrete values\<close>

text \<open>
  A state with two storages: a 2 by 3 array of floating-point type and a long-integer
  index array with the two entries 0 and 1.
\<close>

definition ex_state :: State where
  "ex_state = \<lparr>next_impl = 2, storages = [[1, 2, 3, 4, 5, 6], [0, 1]]\<rparr>"

definition ex_a :: Tensor where
  "ex_a = \<lparr>impl = 0, storage = 0, storage_offset = 0, sizes = [2, 3], strides = [3, 1],
           scalar_type = kFloat, device = kCPU\<rparr>"

definition ex_idx :: Tensor where
  "ex_idx = \<lparr>impl = 1, storage = 1, storage_offset = 0, sizes = [2], strides = [1],
             scalar_type = kLong, device = kCPU\<rparr>"

text \<open>The cursor among the loop variables that a turn of the loop returns.\<close>

definition loop_dim :: "error + (Tensor \<times> int \<times> Tensor option list \<times> State) \<Rightarrow> int option" where
  "loop_dim r = (case r of Inl e \<Rightarrow> None | Inr (res, d, out, st) \<Rightarrow> Some d)"

text \<open>The 0-dimensional array at cell 4 of the first storage.\<close>

definition ex_scalar :: Tensor where
  "ex_scalar = \<lparr>impl = 0, storage = 0, storage_offset = 4, sizes = [], strides = [],
                scalar_type = kFloat, device = kCPU\<rparr>"

section \<open>The spec's reading of the Dimension Counter\<close>

text \<open>
  Section 4.1 of the spec, descriptor by descriptor: a new-axis marker, an ellipsis and
  a boolean consume no source dimension, a boolean/byte index array consumes as many as
  it has dimensions, and every other descriptor consumes exactly one.
\<close>

fun consumed_dimensions :: "TensorIndex \<Rightarrow> int" where
  "consumed_dimensions IdxNone = 0"
| "consumed_dimensions IdxEllipsis = 0"
| "consumed_dimensions (IdxBoolean b) = 0"
| "consumed_dimensions (IdxTensor t) =
     (if scalar_type t = kBool \<or> scalar_type t = kByte then dim t else 1)"
| "consumed_dimensions (IdxInteger n prov) = 1"
| "consumed_dimensions (IdxSlice s) = 1"

text \<open>
  The descriptor lists for which \<^verbatim>\<open>get_item\<close>, and \<^verbatim>\<open>set_item\<close>, return from a
  single-descriptor branch and never call \<^verbatim>\<open>applySlicing\<close>.
\<close>

fun simple_get :: "TensorIndex list \<Rightarrow> bool" where
  "simple_get [IdxNone] = True"
| "simple_get [IdxEllipsis] = True"
| "simple_get [IdxInteger n prov] = True"
| "simple_get [IdxSlice s] = True"
| "simple_get indices = False"

fun simple_set :: "TensorIndex list \<Rightarrow> bool" where
  "simple_set [IdxTensor t] = False"
| "simple_set [obj] = True"
| "simple_set indices = False"




text \<open>The 2 by 3 array again, this time on an accelerator.\<close>

definition ex_cuda :: Tensor where
  "ex_cuda = \<lparr>impl = 0, storage = 0, storage_offset = 0, sizes = [2, 3], strides = [3, 1],
           scalar_type = kFloat, device = kCUDA 0\<rparr>"

section \<open>The spec's reading of broadcasting\<close>

text \<open>
  A value of shape \<open>src\<close> can be broadcast against a view of shape \<open>dst\<close> when, with the
  shapes aligned at their last dimension, every dimension of \<open>src\<close> has the size of the
  dimension of \<open>dst\<close> it meets or size 1.
\<close>

definition broadcastable :: "nat list \<Rightarrow> nat list \<Rightarrow> bool" where
  "broadcastable src dst =
     (length src \<le> length dst
      \<and> list_all2 (\<lambda>s t. s = t \<or> s = 1) src (drop (length dst - length src) dst))"

text \<open>The second row of the 2 by 3 array, seen as a 1 by 1 by 3 array.\<close>

definition ex_row :: Tensor where
  "ex_row = \<lparr>impl = 1, storage = 0, storage_offset = 3, sizes = [1, 1, 3],
             strides = [3, 3, 1], scalar_type = kFloat, device = kCPU\<rparr>"

text \<open>
  The index array \<open>[0, 1]\<close> after its conversion to the accelerator, in the state above,
  and the state after the conversion.
\<close>

definition ex_idx_cuda :: Tensor where
  "ex_idx_cuda = \<lparr>impl = 2, storage = 2, storage_offset = 0, sizes = [2], strides = [1],
                  scalar_type = kLong, device = kCUDA 0\<rparr>"

definition ex_state_cuda :: State where
  "ex_state_cuda = \<lparr>next_impl = 3, storages = [[1, 2, 3, 4, 5, 6], [0, 1], [0, 1]]\<rparr>"

section \<open>Properties\<close>

subsection \<open>The pending advanced indices\<close>

lemma replicate_update_last:
  "(replicate (Suc k) a)[k := x] = replicate k a @ [x]"
  by (induction k) simp_all

lemma resize_append:
  assumes "length v \<le> n"
  shows "(resize v (Suc n))[n := x] = v @ replicate (n - length v) None @ [x]"
  using assms
  by (simp add: resize_def list_update_append Suc_diff_le replicate_update_last
        del: replicate_Suc)

text \<open>
  C1, as the spec states it: an index array that is not 0-dimensional is put on the
  pending list at the cursor and the cursor stays where it is. On the 2 by 3 array with
  the cursor at 0, the turn of the loop for the index array \<open>[0, 1]\<close> returns the cursor 1,
  not 0.
\<close>

theorem applySlicing_index_array_dim_counterexample:
  "applySlicing_body ex_a 1 (ex_a, 0, [], ex_state) 0 (IdxTensor ex_idx)
     = Inr (ex_a, 1, [Some ex_idx], ex_state)
   \<and> loop_dim (applySlicing_body ex_a 1 (ex_a, 0, [], ex_state) 0 (IdxTensor ex_idx)) \<noteq> Some 0"
  by (simp add: loop_dim_def ex_a_def ex_idx_def ex_state_def dim_def handle_tensor_def
        resize_def)

text \<open>
  C1, amended: for an index array that is not 0-dimensional, a turn of the loop leaves
  the running result and the program state as they are (no view operation), puts the
  array itself at position \<open>dim\<close> of the pending list, after undefined entries for the
  positions the list did not reach yet, and moves the cursor from \<open>dim\<close> to \<open>dim + 1\<close>.
\<close>

theorem applySlicing_index_array:
  assumes "sizes tensor \<noteq> []" and "0 \<le> d" and "length outIndices \<le> nat d"
  shows "applySlicing_body self specified_dims (result, d, outIndices, st) i (IdxTensor tensor)
         = Inr (result, d + 1,
                outIndices @ replicate (nat d - length outIndices) None @ [Some tensor], st)"
  using assms resize_append[of outIndices "nat d" "Some tensor"]
  by (simp add: dim_def handle_tensor_def nat_add_distrib)

theorem applySlicing_index_array_witness:
  "sizes ex_idx \<noteq> [] \<and> (0::int) \<le> 0 \<and> length ([] :: Tensor option list) \<le> nat 0
   \<and> applySlicing_body ex_a 1 (ex_a, 0, [], ex_state) 0 (IdxTensor ex_idx)
       = Inr (ex_a, 0 + 1,
              [] @ replicate (nat 0 - length ([] :: Tensor option list)) None @ [Some ex_idx],
              ex_state)"
  using applySlicing_index_array[of ex_idx 0 "[]" ex_a 1 ex_a ex_state 0]
  by (simp add: ex_idx_def)

subsection \<open>Counting dimensions and the arity check\<close>

lemma count_obj_consumed: "count_obj c obj = c + consumed_dimensions obj"
  by (cases obj) auto

lemma foldl_count_obj:
  "foldl count_obj c indices = c + sum_list (map consumed_dimensions indices)"
  by (induction indices arbitrary: c) (simp_all add: count_obj_consumed)

lemma count_specified_dimensions_sum:
  "count_specified_dimensions indices = sum_list (map consumed_dimensions indices)"
  by (simp add: count_specified_dimensions_def foldl_count_obj)

lemma applySlicing_too_many:
  "dim self < count_specified_dimensions indices \<Longrightarrow>
   applySlicing st self indices out = Inl (IndexingArity (dim self))"
  by (simp add: applySlicing_def Let_def)

text \<open>The general path of the getter and of the setter.\<close>

lemma get_item_general:
  "\<not> simple_get indices \<Longrightarrow>
   get_item st self indices =
     (case applySlicing st self indices [] of
        Inl e \<Rightarrow> Inl e
      | Inr (sliced, tensorIndices, st1) \<Rightarrow>
          if tensorIndices = [] then
            (if is_same sliced self then Inr (alias_tensor st1 sliced) else Inr (sliced, st1))
          else dispatch_index st1 sliced tensorIndices)"
  by (cases indices rule: simple_get.cases) (simp_all add: get_item_def)

lemma set_item_general:
  "\<not> simple_set indices \<Longrightarrow>
   set_item st self indices value =
     (case applySlicing st self indices [] of
        Inl e \<Rightarrow> Inl e
      | Inr (sliced, tensorIndices, st1) \<Rightarrow>
          if tensorIndices = [] then copy_to st1 sliced value
          else
            (let slicedValueSizes = slicePrefix1sSize (sizes value) in
             case (if sizes value \<noteq> slicedValueSizes then view st1 value slicedValueSizes
                   else Inr (value, st1)) of
               Inl e \<Rightarrow> Inl e
             | Inr (valuesSliced, st2) \<Rightarrow>
                 dispatch_index_put_inplace st2 sliced tensorIndices valuesSliced))"
  by (cases indices rule: simple_set.cases) (simp_all add: set_item_def)

text \<open>
  C2, as the spec states it: get and set fail with the indexing-arity error whenever the
  count exceeds the rank of the source. A 0-dimensional array indexed with the single
  integer 0 has count 1 and rank 0, yet get and set hand the descriptor to the select
  primitive without counting, and what comes back is the primitive's own error.
\<close>

theorem arity_error_single_integer_counterexample:
  "dim ex_scalar < count_specified_dimensions [IdxInteger 0 None]
   \<and> get_item ex_state ex_scalar [IdxInteger 0 None] = applySelect ex_state ex_scalar 0 0 None 0
   \<and> get_item ex_state ex_scalar [IdxInteger 0 None] = Inl PrimitiveError
   \<and> get_item ex_state ex_scalar [IdxInteger 0 None] \<noteq> Inl (IndexingArity (dim ex_scalar))
   \<and> set_item ex_state ex_scalar [IdxInteger 0 None] ex_idx \<noteq> Inl (IndexingArity (dim ex_scalar))"
  by (simp add: ex_scalar_def dim_def count_specified_dimensions_def get_item_def set_item_def
        applySelect_def)

text \<open>
  C2, amended: the count of explicitly consumed source dimensions is 0 for None, Ellipsis
  and Boolean descriptors, the index array's own rank for a boolean/byte IndexArray and 1
  for every other descriptor; applySlicing fails with the indexing-arity error when this
  count exceeds the rank of the source, and so do get and set (array or scalar value)
  for every descriptor list that reaches applySlicing, that is every list but the
  single descriptors their fast paths return from.
\<close>

theorem arity_error_general_path:
  "count_specified_dimensions indices = sum_list (map consumed_dimensions indices)
   \<and> (dim self < count_specified_dimensions indices \<longrightarrow>
        applySlicing st self indices out = Inl (IndexingArity (dim self))
        \<and> (\<not> simple_get indices \<longrightarrow> get_item st self indices = Inl (IndexingArity (dim self)))
        \<and> (\<not> simple_set indices \<longrightarrow>
             set_item st self indices value = Inl (IndexingArity (dim self))
             \<and> set_item_scalar st self indices v = Inl (IndexingArity (dim self))))"
  by (auto simp: count_specified_dimensions_sum[symmetric] applySlicing_too_many
        get_item_general set_item_general set_item_scalar_def split: prod.splits)

theorem arity_error_general_path_witness:
  "count_specified_dimensions [IdxInteger 0 None, IdxInteger 0 None, IdxInteger 0 None] = 3
   \<and> dim ex_a = 2
   \<and> \<not> simple_get [IdxInteger 0 None, IdxInteger 0 None, IdxInteger 0 None]
   \<and> \<not> simple_set [IdxInteger 0 None, IdxInteger 0 None, IdxInteger 0 None]
   \<and> applySlicing ex_state ex_a [IdxInteger 0 None, IdxInteger 0 None, IdxInteger 0 None] []
       = Inl (IndexingArity 2)
   \<and> get_item ex_state ex_a [IdxInteger 0 None, IdxInteger 0 None, IdxInteger 0 None]
       = Inl (IndexingArity 2)
   \<and> set_item ex_state ex_a [IdxInteger 0 None, IdxInteger 0 None, IdxInteger 0 None] ex_idx
       = Inl (IndexingArity 2)
   \<and> set_item_scalar ex_state ex_a [IdxInteger 0 None, IdxInteger 0 None, IdxInteger 0 None] 7
       = Inl (IndexingArity 2)"
  using arity_error_general_path
          [of "[IdxInteger 0 None, IdxInteger 0 None, IdxInteger 0 None]" ex_a ex_state "[]" ex_idx 7]
  by (simp add: ex_a_def dim_def)

subsection \<open>What the view primitives and the applier keep\<close>

text \<open>
  A view primitive hands out the next unused identity and leaves the storages alone; the
  basic view the applier returns is the source itself or an object made during the
  call, and it is on the storage of the source.
\<close>

lemma new_view_facts:
  "new_view st t = (r, st') \<Longrightarrow>
   impl r = next_impl st \<and> next_impl st' = Suc (next_impl st) \<and> storage r = storage t
   \<and> storages st' = storages st"
  by (auto simp: new_view_def)

lemma unsqueeze_facts:
  "unsqueeze st t d = Inr (r, st') \<Longrightarrow>
   impl r = next_impl st \<and> next_impl st' = Suc (next_impl st) \<and> storage r = storage t
   \<and> storages st' = storages st"
  by (auto simp: unsqueeze_def new_view_def Let_def split: if_splits)

lemma applySelect_facts:
  "applySelect st t d n prov i = Inr (r, st') \<Longrightarrow>
   impl r = next_impl st \<and> next_impl st' = Suc (next_impl st) \<and> storage r = storage t
   \<and> storages st' = storages st"
  by (auto simp: applySelect_def new_view_def Let_def split: if_splits)

lemma applySlice_facts:
  "applySlice st t d a b c at bt ct flag = Inr (r, st') \<Longrightarrow>
   impl r = next_impl st \<and> next_impl st' = Suc (next_impl st) \<and> storage r = storage t
   \<and> storages st' = storages st"
  by (auto simp: applySlice_def new_view_def Let_def split: if_splits)

lemma boolToIndexingTensor_facts:
  "boolToIndexingTensor st r b = (t, st') \<Longrightarrow> next_impl st' = Suc (next_impl st)"
  by (auto simp: boolToIndexingTensor_def zeros_def empty_tensor_def new_tensor_def split: if_splits)

lemma applySlicing_body_inv:
  assumes "applySlicing_body self specified_dims (result, d, out, st) i obj = Inr (r', d', out', st')"
    and "n0 \<le> next_impl st" and "result = self \<or> n0 \<le> impl result"
    and "storage result = storage self"
  shows "n0 \<le> next_impl st' \<and> (r' = self \<or> n0 \<le> impl r') \<and> storage r' = storage self"
proof (cases obj)
  case IdxNone
  with assms show ?thesis by (auto split: sum.splits dest!: unsqueeze_facts)
next
  case IdxEllipsis
  with assms show ?thesis by auto
next
  case (IdxInteger n prov)
  with assms show ?thesis by (auto split: sum.splits dest!: applySelect_facts)
next
  case (IdxBoolean b)
  with assms show ?thesis
    by (auto split: sum.splits prod.splits dest!: unsqueeze_facts boolToIndexingTensor_facts)
next
  case (IdxSlice s)
  with assms show ?thesis by (auto split: sum.splits dest!: applySlice_facts)
next
  case (IdxTensor t)
  with assms show ?thesis
    by (auto split: sum.splits prod.splits if_splits
          dest!: unsqueeze_facts boolToIndexingTensor_facts applySelect_facts)
qed

lemma applySlicing_loop_inv:
  assumes "applySlicing_loop self specified_dims (result, d, out, st) i objs = Inr (r', d', out', st')"
    and "n0 \<le> next_impl st" and "result = self \<or> n0 \<le> impl result"
    and "storage result = storage self"
  shows "n0 \<le> next_impl st' \<and> (r' = self \<or> n0 \<le> impl r') \<and> storage r' = storage self"
  using assms
proof (induction objs arbitrary: result d out st i)
  case Nil
  then show ?case by simp
next
  case (Cons obj objs)
  from Cons.prems(1) obtain r1 d1 out1 st1 where
    body: "applySlicing_body self specified_dims (result, d, out, st) i obj = Inr (r1, d1, out1, st1)"
    and rest: "applySlicing_loop self specified_dims (r1, d1, out1, st1) (i + 1) objs = Inr (r', d', out', st')"
    by (auto split: sum.splits)
  from applySlicing_body_inv[OF body Cons.prems(2,3,4)]
  show ?case using Cons.IH[OF rest] by blast
qed

lemma applySlicing_result:
  assumes "applySlicing st self indices out = Inr (sliced, tensorIndices, st1)"
  shows "next_impl st \<le> next_impl st1 \<and> (sliced = self \<or> next_impl st \<le> impl sliced)
         \<and> storage sliced = storage self"
proof -
  from assms obtain d where
    "applySlicing_loop self (count_specified_dimensions indices) (self, 0, out, st) 0 indices
      = Inr (sliced, d, tensorIndices, st1)"
    by (auto simp: applySlicing_def Let_def split: if_splits sum.splits)
  from applySlicing_loop_inv[OF this, of "next_impl st"] show ?thesis by simp
qed

lemma applySlicing_Nil: "applySlicing st a [] out = Inr (a, out, st)"
  by (simp add: applySlicing_def count_specified_dimensions_def dim_def)

text \<open>
  Once the arity check has passed, the cursor never goes below 0 and the pending list is
  never longer than the cursor says: at every turn of the loop a new pending index goes
  after the entries there are.
\<close>

lemma handle_tensor_cursor:
  "0 \<le> d \<Longrightarrow> handle_tensor d out t = (d', out') \<Longrightarrow> d' = d + 1 \<and> length out' = nat d'"
  by (auto simp: handle_tensor_def resize_def)

lemma applySlicing_body_cursor:
  assumes "applySlicing_body self specified_dims (result, d, out, st) i obj = Inr (r', d', out', st')"
    and "specified_dims \<le> dim self" and "0 \<le> d" and "length out \<le> nat d"
  shows "0 \<le> d' \<and> length out' \<le> nat d'"
proof (cases obj)
  case IdxNone
  with assms show ?thesis by (auto split: sum.splits)
next
  case IdxEllipsis
  with assms show ?thesis by auto
next
  case (IdxInteger n prov)
  with assms show ?thesis by (auto split: sum.splits)
next
  case (IdxBoolean b)
  with assms show ?thesis
    by (auto split: sum.splits prod.splits dest!: handle_tensor_cursor[rotated])
next
  case (IdxSlice s)
  with assms show ?thesis by (auto split: sum.splits)
next
  case (IdxTensor t)
  with assms show ?thesis
    by (auto split: sum.splits prod.splits if_splits dest!: handle_tensor_cursor[rotated])
qed

lemma applySlicing_loop_cursor:
  assumes "applySlicing_loop self specified_dims (result, d, out, st) i objs = Inr (r', d', out', st')"
    and "specified_dims \<le> dim self" and "0 \<le> d" and "length out \<le> nat d"
  shows "0 \<le> d' \<and> length out' \<le> nat d'"
  using assms
proof (induction objs arbitrary: result d out st i)
  case Nil
  then show ?case by simp
next
  case (Cons obj objs)
  from Cons.prems(1) obtain r1 d1 out1 st1 where
    body: "applySlicing_body self specified_dims (result, d, out, st) i obj = Inr (r1, d1, out1, st1)"
    and rest: "applySlicing_loop self specified_dims (r1, d1, out1, st1) (i + 1) objs = Inr (r', d', out', st')"
    by (auto split: sum.splits)
  from applySlicing_body_cursor[OF body Cons.prems(2,3,4)]
  show ?case using Cons.IH[OF rest Cons.prems(2)] by blast
qed

subsection \<open>No-op index expressions\<close>

text \<open>
  C10: for an array \<open>a\<close> that is an object of the state, get with no descriptor at all
  succeeds: the applier returns \<open>a\<close> itself with no pending advanced index, and the getter
  returns a new alias of it, on the storage of \<open>a\<close>, with the geometry of \<open>a\<close> and an
  identity that is not the one of \<open>a\<close>.
\<close>

theorem get_item_no_descriptors:
  assumes "impl a < next_impl st"
  shows "applySlicing st a [] [] = Inr (a, [], st)
     \<and> get_item st a [] = Inr (alias_tensor st a)
     \<and> alias_tensor st a = (a\<lparr>impl := next_impl st\<rparr>, st\<lparr>next_impl := Suc (next_impl st)\<rparr>)
     \<and> storage (fst (alias_tensor st a)) = storage a
     \<and> \<not> is_same (fst (alias_tensor st a)) a"
  using assms
  by (simp add: applySlicing_Nil get_item_def is_same_def alias_tensor_def new_view_def)

theorem get_item_no_descriptors_witness:
  "impl ex_a < next_impl ex_state
   \<and> get_item ex_state ex_a [] = Inr (ex_a\<lparr>impl := 2\<rparr>, ex_state\<lparr>next_impl := 3\<rparr>)
   \<and> storage (fst (alias_tensor ex_state ex_a)) = storage ex_a
     \<and> \<not> is_same (fst (alias_tensor ex_state ex_a)) ex_a"
  using get_item_no_descriptors[of ex_a ex_state]
  by (simp add: ex_a_def ex_state_def is_same_def alias_tensor_def new_view_def)

text \<open>
  C3: for an array \<open>a\<close> that is an object of the state, get with a bare Ellipsis returns
  a new alias of \<open>a\<close>: the same storage, another identity. So does the general path
  whenever the applier comes back with a view that is the very object \<open>a\<close> and with no
  pending advanced index.
\<close>

theorem get_item_noop_alias:
  assumes "impl a < next_impl st"
  shows "get_item st a [IdxEllipsis] = Inr (alias_tensor st a)
     \<and> storage (fst (alias_tensor st a)) = storage a
     \<and> \<not> is_same (fst (alias_tensor st a)) a
     \<and> (\<not> simple_get indices \<and> applySlicing st a indices [] = Inr (sliced, [], st1)
          \<and> is_same sliced a \<longrightarrow>
            get_item st a indices = Inr (alias_tensor st1 sliced)
            \<and> storage (fst (alias_tensor st1 sliced)) = storage a
            \<and> \<not> is_same (fst (alias_tensor st1 sliced)) a)"
proof -
  have fast: "get_item st a [IdxEllipsis] = Inr (alias_tensor st a)"
    by (simp add: get_item_def)
  have fresh: "storage (fst (alias_tensor st a)) = storage a \<and> \<not> is_same (fst (alias_tensor st a)) a"
    using assms by (simp add: alias_tensor_def new_view_def is_same_def)
  have general: "get_item st a indices = Inr (alias_tensor st1 sliced)
            \<and> storage (fst (alias_tensor st1 sliced)) = storage a
            \<and> \<not> is_same (fst (alias_tensor st1 sliced)) a"
    if g: "\<not> simple_get indices" and s: "applySlicing st a indices [] = Inr (sliced, [], st1)"
      and same: "is_same sliced a"
  proof -
    from applySlicing_result[OF s] have mono: "next_impl st \<le> next_impl st1"
      and st: "storage sliced = storage a" by simp_all
    from g s same have "get_item st a indices = Inr (alias_tensor st1 sliced)"
      by (simp add: get_item_general)
    moreover have "storage (fst (alias_tensor st1 sliced)) = storage a"
      using st by (simp add: alias_tensor_def new_view_def)
    moreover have "\<not> is_same (fst (alias_tensor st1 sliced)) a"
      using assms mono by (simp add: alias_tensor_def new_view_def is_same_def)
    ultimately show ?thesis by simp
  qed
  from fast fresh general show ?thesis by blast
qed

theorem get_item_noop_alias_witness:
  "impl ex_a < next_impl ex_state
   \<and> get_item ex_state ex_a [IdxEllipsis] = Inr (ex_a\<lparr>impl := 2\<rparr>, ex_state\<lparr>next_impl := 3\<rparr>)
   \<and> \<not> simple_get [IdxEllipsis, IdxEllipsis]
   \<and> applySlicing ex_state ex_a [IdxEllipsis, IdxEllipsis] [] = Inr (ex_a, [], ex_state)
   \<and> is_same ex_a ex_a
   \<and> get_item ex_state ex_a [IdxEllipsis, IdxEllipsis] = Inr (ex_a\<lparr>impl := 2\<rparr>, ex_state\<lparr>next_impl := 3\<rparr>)
   \<and> storage (ex_a\<lparr>impl := 2\<rparr>) = storage ex_a
   \<and> \<not> is_same (ex_a\<lparr>impl := 2\<rparr>) ex_a"
proof -
  have s: "applySlicing ex_state ex_a [IdxEllipsis, IdxEllipsis] [] = Inr (ex_a, [], ex_state)"
    by (simp add: applySlicing_def count_specified_dimensions_def dim_def ex_a_def)
  have a: "alias_tensor ex_state ex_a = (ex_a\<lparr>impl := 2\<rparr>, ex_state\<lparr>next_impl := 3\<rparr>)"
    by (simp add: alias_tensor_def new_view_def ex_state_def)
  have i: "impl ex_a < next_impl ex_state" by (simp add: ex_a_def ex_state_def)
  show ?thesis
    using get_item_noop_alias[OF i, of "[IdxEllipsis, IdxEllipsis]" ex_a ex_state] s a i
    by (simp add: is_same_def)
qed

subsection \<open>Assignment to the descriptor false, and scalar values\<close>

lemma elements_extend:
  "storage a < length (storages st) \<Longrightarrow> storages st' = storages st @ new \<Longrightarrow>
   elements st' a = elements st a"
  by (simp add: elements_def read_at_def nth_append)

text \<open>
  C6: set with the single descriptor Boolean(false) succeeds and writes nothing. For an
  array value the state is returned as it is. For a scalar value the only change is
  the new 0-dimensional array the scalar was converted to, on a storage of its own
  after the storages there were; every array on one of those reads as before.
\<close>

theorem set_item_false_noop:
  "set_item st a [IdxBoolean False] value = Inr st
   \<and> set_item_scalar st a [IdxBoolean False] v
       = Inr (st\<lparr>next_impl := Suc (next_impl st), storages := storages st @ [[v]]\<rparr>)
   \<and> (storage a < length (storages st) \<longrightarrow>
        elements (st\<lparr>next_impl := Suc (next_impl st), storages := storages st @ [[v]]\<rparr>) a
          = elements st a)"
  using elements_extend[of a st
          "st\<lparr>next_impl := Suc (next_impl st), storages := storages st @ [[v]]\<rparr>" "[[v]]"]
  by (simp add: set_item_def set_item_scalar_def valueToTensor_def scalar_tensor_def
        new_tensor_def)

theorem set_item_false_noop_witness:
  "set_item ex_state ex_a [IdxBoolean False] ex_idx = Inr ex_state
   \<and> set_item_scalar ex_state ex_a [IdxBoolean False] 7
       = Inr \<lparr>next_impl = 3, storages = [[1, 2, 3, 4, 5, 6], [0, 1], [7]]\<rparr>
   \<and> storage ex_a < length (storages ex_state)
   \<and> elements \<lparr>next_impl = 3, storages = [[1, 2, 3, 4, 5, 6], [0, 1], [7]]\<rparr> ex_a
        = elements ex_state ex_a"
  using set_item_false_noop[of ex_state ex_a ex_idx 7]
  by (simp add: ex_state_def ex_a_def)




subsection \<open>The new-axis marker\<close>

text \<open>
  C9: get with the single descriptor None returns a view \<open>u\<close> of rank \<open>a.rank + 1\<close> whose
  shape is 1 followed by the shape of \<open>a\<close>, on the storage of \<open>a\<close>; get on \<open>u\<close> with
  the single integer 0 (a select at dimension 0) returns a view that is \<open>a\<close> in
  everything but its identity, so it reads the same elements.
\<close>

theorem get_item_none_roundtrip:
  "\<exists>u st1 r st2.
     get_item st a [IdxNone] = Inr (u, st1)
     \<and> dim u = dim a + 1 \<and> sizes u = 1 # sizes a \<and> storage u = storage a
     \<and> get_item st1 u [IdxInteger 0 None] = Inr (r, st2)
     \<and> r = a\<lparr>impl := Suc (next_impl st)\<rparr>
     \<and> storages st2 = storages st
     \<and> elements st2 r = elements st a"
  by (simp add: get_item_def unsqueeze_def applySelect_def dim_def new_view_def insert_at_def
        remove_at_def elements_def read_at_def address_def Let_def)

theorem get_item_none_roundtrip_witness:
  "get_item ex_state ex_a [IdxNone]
     = Inr (\<lparr>impl = 2, storage = 0, storage_offset = 0, sizes = [1, 2, 3], strides = [6, 3, 1],
             scalar_type = kFloat, device = kCPU\<rparr>, ex_state\<lparr>next_impl := 3\<rparr>)
   \<and> get_item (ex_state\<lparr>next_impl := 3\<rparr>)
        \<lparr>impl = 2, storage = 0, storage_offset = 0, sizes = [1, 2, 3], strides = [6, 3, 1],
         scalar_type = kFloat, device = kCPU\<rparr> [IdxInteger 0 None]
     = Inr (ex_a\<lparr>impl := 3\<rparr>, ex_state\<lparr>next_impl := 4\<rparr>)
   \<and> elements (ex_state\<lparr>next_impl := 4\<rparr>) (ex_a\<lparr>impl := 3\<rparr>) = [1, 2, 3, 4, 5, 6]
   \<and> elements ex_state ex_a = [1, 2, 3, 4, 5, 6]"
  using get_item_none_roundtrip[of ex_state ex_a]
  by (simp add: get_item_def unsqueeze_def applySelect_def dim_def new_view_def insert_at_def
        remove_at_def elements_def read_at_def address_def Let_def ex_a_def ex_state_def upt_rec)

subsection \<open>Reading a new tensor, and the index conversion\<close>

text \<open>
  The elements of a new tensor, read through its row-major strides, are the values it
  was made from.
\<close>

lemma upt_shift: "[a..<a + m] = map (\<lambda>k. a + k) [0..<m]"
  by (induction m) simp_all

lemma concat_blocks:
  "concat (map (\<lambda>i. map (\<lambda>k. f (i * m + k)) [0..<m]) [0..<n]) = map f [0..<n * m]"
proof (induction n)
  case 0
  show ?case by simp
next
  case (Suc n)
  have "[0..<Suc n * m] = [0..<n * m] @ [n * m..<n * m + m]"
    using upt_add_eq_append[of 0 "n * m" m] by (simp add: add.commute)
  then have "map f [0..<Suc n * m] = map f [0..<n * m] @ map (\<lambda>k. f (n * m + k)) [0..<m]"
    by (simp add: upt_shift[of "n * m" m] comp_def)
  then show ?case using Suc by simp
qed

lemma length_all_indices: "length (all_indices shape) = prod_list shape"
proof (induction shape)
  case Nil
  show ?case by simp
next
  case (Cons n ns)
  then show ?case
    by (simp add: length_concat comp_def sum_list_triv)
qed

lemma map_flat_all_indices:
  "map (\<lambda>idx. f (sum_list (map2 (*) idx (contiguous_strides shape)))) (all_indices shape)
     = map f [0..<prod_list shape]"
proof (induction shape arbitrary: f)
  case Nil
  show ?case by simp
next
  case (Cons n ns)
  have "map (\<lambda>idx. f (sum_list (map2 (*) idx (contiguous_strides (n # ns)))))
          (all_indices (n # ns))
        = concat (map (\<lambda>i. map (\<lambda>idx. f (i * prod_list ns
                     + sum_list (map2 (*) idx (contiguous_strides ns)))) (all_indices ns)) [0..<n])"
    by (simp add: map_concat comp_def)
  also have "\<dots> = concat (map (\<lambda>i. map (\<lambda>k. f (i * prod_list ns + k)) [0..<prod_list ns]) [0..<n])"
    using Cons.IH[of "\<lambda>k. f (i * prod_list ns + k)" for i] by simp
  also have "\<dots> = map f [0..<n * prod_list ns]"
    by (rule concat_blocks)
  finally show ?case by simp
qed

lemma elements_new_tensor:
  assumes "length vals = prod_list shape" and "new_tensor st shape opts vals = (t, st')"
  shows "elements st' t = vals"
proof -
  from assms(2) have t: "storage t = length (storages st)" "storage_offset t = 0"
      "sizes t = shape" "strides t = contiguous_strides shape"
      "storages st' = storages st @ [vals]"
    by (auto simp: new_tensor_def)
  have "elements st' t
        = map (\<lambda>idx. (\<lambda>k. if k < length vals then vals ! k else 0)
                        (sum_list (map2 (*) idx (contiguous_strides shape)))) (all_indices shape)"
    by (simp add: elements_def read_at_def address_def t)
  also have "\<dots> = map (\<lambda>k. if k < length vals then vals ! k else 0) [0..<prod_list shape]"
    by (rule map_flat_all_indices)
  also have "\<dots> = map ((!) vals) [0..<length vals]"
    using assms(1) by simp
  finally show ?thesis by (simp add: map_nth)
qed

lemma length_elements: "length (elements st t) = prod_list (sizes t)"
  by (simp add: elements_def length_all_indices)

lemma to_facts:
  assumes "to st ind opts = (c, st')"
  shows "scalar_type c = options_dtype opts \<and> device c = options_device opts
         \<and> sizes c = sizes ind \<and> (options ind = opts \<longrightarrow> c = ind \<and> st' = st)
         \<and> (\<exists>new. storages st' = storages st @ new)
         \<and> elements st' c = elements st ind
         \<and> (storage ind < length (storages st) \<longrightarrow> storage c < length (storages st'))"
proof (cases "options ind = opts")
  case True
  with assms show ?thesis by (auto simp: to_def options_def)
next
  case False
  with assms have n: "new_tensor st (sizes ind) opts (elements st ind) = (c, st')"
    by (simp add: to_def)
  from elements_new_tensor[OF _ n] have "elements st' c = elements st ind"
    by (simp add: length_elements)
  with n False show ?thesis by (auto simp: new_tensor_def)
qed

lemma typeConvertIndices_storages:
  "\<exists>new. storages (snd (typeConvertIndices st self indices)) = storages st @ new"
proof (induction indices arbitrary: st)
  case Nil
  show ?case by simp
next
  case (Cons x xs)
  show ?case
  proof (cases x)
    case None
    with Cons show ?thesis by (simp add: split_beta)
  next
    case (Some ind)
    obtain c st1 where t: "to st ind ((options ind)\<lparr>options_device := device self\<rparr>) = (c, st1)"
      by (cases "to st ind ((options ind)\<lparr>options_device := device self\<rparr>)") blast
    from to_facts[OF t] obtain n1 where "storages st1 = storages st @ n1" by blast
    moreover from Cons[of st1] obtain n2 where
      "storages (snd (typeConvertIndices st1 self xs)) = storages st1 @ n2" by blast
    ultimately show ?thesis using Some t by (simp add: split_beta)
  qed
qed

lemma typeConvertIndices_length:
  "length (fst (typeConvertIndices st self indices)) = length indices"
proof (induction indices arbitrary: st)
  case Nil
  show ?case by simp
next
  case (Cons x xs)
  then show ?case by (cases x) (simp_all add: split_beta)
qed

lemma typeConvertIndices_hole:
  "i < length indices \<Longrightarrow> indices ! i = None \<Longrightarrow>
   fst (typeConvertIndices st self indices) ! i = None"
proof (induction indices arbitrary: st i)
  case Nil
  then show ?case by simp
next
  case (Cons x xs)
  show ?case
  proof (cases i)
    case 0
    with Cons.prems show ?thesis by (simp add: split_beta)
  next
    case (Suc j)
    with Cons.prems have j: "j < length xs" "xs ! j = None" by simp_all
    show ?thesis
    proof (cases x)
      case None
      with Suc Cons.IH[OF j] show ?thesis by (simp add: split_beta)
    next
      case (Some ind)
      obtain c st1 where t: "to st ind ((options ind)\<lparr>options_device := device self\<rparr>) = (c, st1)"
        by (cases "to st ind ((options ind)\<lparr>options_device := device self\<rparr>)") blast
      from Some Suc Cons.IH[OF j] show ?thesis
        by (simp add: split_beta t)
    qed
  qed
qed

lemma typeConvertIndices_defined:
  "i < length indices \<Longrightarrow> indices ! i = Some ind \<Longrightarrow>
   \<exists>c. fst (typeConvertIndices st self indices) ! i = Some c
       \<and> device c = device self \<and> scalar_type c = scalar_type ind \<and> sizes c = sizes ind
       \<and> (device ind = device self \<longrightarrow> c = ind)
       \<and> (storage ind < length (storages st) \<longrightarrow>
            elements (snd (typeConvertIndices st self indices)) c = elements st ind)"
proof (induction indices arbitrary: st i)
  case Nil
  then show ?case by simp
next
  case (Cons x xs)
  show ?case
  proof (cases x)
    case None
    with Cons.prems obtain j where j: "i = Suc j" "j < length xs" "xs ! j = Some ind"
      by (cases i) auto
    from Cons.IH[OF j(2,3), of st] None j(1) show ?thesis
      by (simp add: split_beta)
  next
    case (Some y)
    obtain c st1 where t: "to st y ((options y)\<lparr>options_device := device self\<rparr>) = (c, st1)"
      by (cases "to st y ((options y)\<lparr>options_device := device self\<rparr>)") blast
    note f = to_facts[OF t]
    from f obtain n1 where n1: "storages st1 = storages st @ n1" by blast
    obtain n2 where n2: "storages (snd (typeConvertIndices st1 self xs)) = storages st1 @ n2"
      using typeConvertIndices_storages by blast
    show ?thesis
    proof (cases i)
      case 0
      with Cons.prems Some have y: "y = ind" by simp
      have "storage ind < length (storages st) \<longrightarrow>
              elements (snd (typeConvertIndices st1 self xs)) c = elements st ind"
        using f elements_extend[OF _ n2, of c] y by simp
      moreover have "device c = device self \<and> scalar_type c = scalar_type ind
          \<and> sizes c = sizes ind \<and> (device ind = device self \<longrightarrow> c = ind)"
        using f y by (auto simp: options_def)
      ultimately show ?thesis using 0 Some by (simp add: split_beta t)
    next
      case (Suc j)
      with Cons.prems have j: "j < length xs" "xs ! j = Some ind" by simp_all
      from Cons.IH[OF j, of st1] obtain c' where c':
        "fst (typeConvertIndices st1 self xs) ! j = Some c'"
        "device c' = device self" "scalar_type c' = scalar_type ind" "sizes c' = sizes ind"
        "device ind = device self \<longrightarrow> c' = ind"
        "storage ind < length (storages st1) \<longrightarrow>
            elements (snd (typeConvertIndices st1 self xs)) c' = elements st1 ind"
        by blast
      have "storage ind < length (storages st) \<longrightarrow>
            elements (snd (typeConvertIndices st1 self xs)) c' = elements st ind"
      proof
        assume lt: "storage ind < length (storages st)"
        then have "storage ind < length (storages st1)" using n1 by simp
        with c'(6) have "elements (snd (typeConvertIndices st1 self xs)) c' = elements st1 ind"
          by simp
        also have "\<dots> = elements st ind" by (rule elements_extend[OF lt n1])
        finally show "elements (snd (typeConvertIndices st1 self xs)) c' = elements st ind" .
      qed
      with c'(1-5) Suc Some show ?thesis by (simp add: split_beta t)
    qed
  qed
qed

text \<open>
  C7: both dispatchers convert the pending list first and hand the converted list, with
  the state the conversion leaves, to the gather and to the scatter primitive. The
  converted list is as long as the pending list and in its order. At the position of a
  hole it has a hole. At the position of a defined index array it has an array on the
  device of the basic view, of the same element type and shape, the very same object
  when the device was right already, and with the same elements when the index array
  is an array of the state.
\<close>

theorem typeConvertIndices_spec:
  "length (fst (typeConvertIndices st self indices)) = length indices
   \<and> (\<forall>i < length indices.
        (indices ! i = None \<longrightarrow> fst (typeConvertIndices st self indices) ! i = None)
        \<and> (\<forall>ind. indices ! i = Some ind \<longrightarrow>
             (\<exists>c. fst (typeConvertIndices st self indices) ! i = Some c
                  \<and> device c = device self \<and> scalar_type c = scalar_type ind
                  \<and> sizes c = sizes ind
                  \<and> (device ind = device self \<longrightarrow> c = ind)
                  \<and> (storage ind < length (storages st) \<longrightarrow>
                       elements (snd (typeConvertIndices st self indices)) c = elements st ind))))
   \<and> dispatch_index st self indices
        = index (snd (typeConvertIndices st self indices)) self
            (fst (typeConvertIndices st self indices))
   \<and> dispatch_index_put_inplace st self indices value
        = index_put_inplace (snd (typeConvertIndices st self indices)) self
            (fst (typeConvertIndices st self indices)) value"
proof -
  have g: "dispatch_index st self indices
        = index (snd (typeConvertIndices st self indices)) self
            (fst (typeConvertIndices st self indices))"
    by (simp add: dispatch_index_def split_beta)
  have p: "dispatch_index_put_inplace st self indices value
        = index_put_inplace (snd (typeConvertIndices st self indices)) self
            (fst (typeConvertIndices st self indices)) value"
    by (simp add: dispatch_index_put_inplace_def split_beta)
  from typeConvertIndices_length typeConvertIndices_hole typeConvertIndices_defined g p
  show ?thesis by blast
qed

theorem typeConvertIndices_spec_witness:
  "typeConvertIndices ex_state ex_cuda [None, Some ex_idx] = ([None, Some ex_idx_cuda], ex_state_cuda)
   \<and> length (fst (typeConvertIndices ex_state ex_cuda [None, Some ex_idx])) = 2
   \<and> fst (typeConvertIndices ex_state ex_cuda [None, Some ex_idx]) ! 0 = None
   \<and> device (the (fst (typeConvertIndices ex_state ex_cuda [None, Some ex_idx]) ! 1))
        = device ex_cuda
   \<and> storage ex_idx < length (storages ex_state)
   \<and> elements (snd (typeConvertIndices ex_state ex_cuda [None, Some ex_idx]))
        (the (fst (typeConvertIndices ex_state ex_cuda [None, Some ex_idx]) ! 1))
        = elements ex_state ex_idx
   \<and> dispatch_index ex_state ex_cuda [None, Some ex_idx]
        = index ex_state_cuda ex_cuda [None, Some ex_idx_cuda]
   \<and> dispatch_index ex_state ex_cuda [None, Some ex_idx]
        = Inr (\<lparr>impl = 3, storage = 3, storage_offset = 0, sizes = [2, 2], strides = [2, 1],
                scalar_type = kFloat, device = kCUDA 0\<rparr>,
               \<lparr>next_impl = 4,
                storages = [[1, 2, 3, 4, 5, 6], [0, 1], [0, 1], [1, 2, 4, 5]]\<rparr>)
   \<and> dispatch_index_put_inplace ex_state ex_cuda [None, Some ex_idx] ex_scalar
        = index_put_inplace ex_state_cuda ex_cuda [None, Some ex_idx_cuda] ex_scalar
   \<and> dispatch_index_put_inplace ex_state ex_cuda [None, Some ex_idx] ex_scalar
        = Inr \<lparr>next_impl = 4, storages = [[5, 5, 3, 5, 5, 6], [0, 1], [0, 1]]\<rparr>"
proof -
  have e: "typeConvertIndices ex_state ex_cuda [None, Some ex_idx]
             = ([None, Some ex_idx_cuda], ex_state_cuda)"
    by code_simp
  have s: "storage ex_idx < length (storages ex_state)"
    by (simp add: ex_idx_def ex_state_def)
  have v: "dispatch_index ex_state ex_cuda [None, Some ex_idx]
        = Inr (\<lparr>impl = 3, storage = 3, storage_offset = 0, sizes = [2, 2], strides = [2, 1],
                scalar_type = kFloat, device = kCUDA 0\<rparr>,
               \<lparr>next_impl = 4,
                storages = [[1, 2, 3, 4, 5, 6], [0, 1], [0, 1], [1, 2, 4, 5]]\<rparr>)"
    by code_simp
  have w: "dispatch_index_put_inplace ex_state ex_cuda [None, Some ex_idx] ex_scalar
        = Inr \<lparr>next_impl = 4, storages = [[5, 5, 3, 5, 5, 6], [0, 1], [0, 1]]\<rparr>"
    by code_simp
  define r where "r = typeConvertIndices ex_state ex_cuda [None, Some ex_idx]"
  note T = typeConvertIndices_spec[of ex_state ex_cuda "[None, Some ex_idx]" ex_scalar,
      folded r_def]
  from T have "\<forall>ind. [None, Some ex_idx] ! 1 = Some ind \<longrightarrow>
             (\<exists>c. fst r ! 1 = Some c
                  \<and> device c = device ex_cuda \<and> scalar_type c = scalar_type ind
                  \<and> sizes c = sizes ind
                  \<and> (device ind = device ex_cuda \<longrightarrow> c = ind)
                  \<and> (storage ind < length (storages ex_state) \<longrightarrow>
                       elements (snd r) c = elements ex_state ind))"
    by simp
  with s obtain c where c: "fst r ! 1 = Some c" "device c = device ex_cuda"
      "elements (snd r) c = elements ex_state ex_idx"
    by auto
  from T have l: "length (fst r) = 2" "fst r ! 0 = None" by simp_all
  from T have g: "dispatch_index ex_state ex_cuda [None, Some ex_idx]
                    = index (snd r) ex_cuda (fst r)"
    and p: "dispatch_index_put_inplace ex_state ex_cuda [None, Some ex_idx] ex_scalar
              = index_put_inplace (snd r) ex_cuda (fst r) ex_scalar"
    by blast+
  have re: "r = ([None, Some ex_idx_cuda], ex_state_cuda)"
    using e by (simp only: r_def)
  have g': "dispatch_index ex_state ex_cuda [None, Some ex_idx]
              = index ex_state_cuda ex_cuda [None, Some ex_idx_cuda]"
    using g by (simp only: re fst_conv snd_conv)
  have p': "dispatch_index_put_inplace ex_state ex_cuda [None, Some ex_idx] ex_scalar
              = index_put_inplace ex_state_cuda ex_cuda [None, Some ex_idx_cuda] ex_scalar"
    using p by (simp only: re fst_conv snd_conv)
  have "r = ([None, Some ex_idx_cuda], ex_state_cuda)
   \<and> length (fst r) = 2
   \<and> fst r ! 0 = None
   \<and> device (the (fst r ! 1)) = device ex_cuda
   \<and> storage ex_idx < length (storages ex_state)
   \<and> elements (snd r) (the (fst r ! 1)) = elements ex_state ex_idx"
    using re l c s by (simp only: option.sel simp_thms)
  then have m: "typeConvertIndices ex_state ex_cuda [None, Some ex_idx]
       = ([None, Some ex_idx_cuda], ex_state_cuda)
   \<and> length (fst (typeConvertIndices ex_state ex_cuda [None, Some ex_idx])) = 2
   \<and> fst (typeConvertIndices ex_state ex_cuda [None, Some ex_idx]) ! 0 = None
   \<and> device (the (fst (typeConvertIndices ex_state ex_cuda [None, Some ex_idx]) ! 1))
        = device ex_cuda
   \<and> storage ex_idx < length (storages ex_state)
   \<and> elements (snd (typeConvertIndices ex_state ex_cuda [None, Some ex_idx]))
        (the (fst (typeConvertIndices ex_state ex_cuda [None, Some ex_idx]) ! 1))
        = elements ex_state ex_idx"
    unfolding r_def .
  from m g' v p' w show ?thesis by blast
qed

subsection \<open>The broadcast-copy helper\<close>

lemma first_non1_src_takeWhile:
  "i \<le> length szs \<Longrightarrow>
   first_non1_src szs i = i + length (takeWhile (\<lambda>n. n = 1) (drop i szs))"
proof (induction szs i rule: first_non1_src.induct)
  case (1 szs i)
  show ?case
  proof (cases "i < length szs")
    case False
    then have "first_non1_src szs i = length szs"
      by (subst first_non1_src.simps) simp
    with False "1.prems" show ?thesis by simp
  next
    case True
    then have d: "drop i szs = szs ! i # drop (Suc i) szs"
      by (simp add: Cons_nth_drop_Suc)
    show ?thesis
    proof (cases "szs ! i = 1")
      case False
      with True have "first_non1_src szs i = i"
        by (subst first_non1_src.simps) simp
      moreover from False have "takeWhile (\<lambda>n. n = 1) (drop i szs) = []"
        unfolding d by simp
      ultimately show ?thesis by simp
    next
      case one: True
      with True have "first_non1_src szs i = first_non1_src szs (i + 1)"
        by (subst first_non1_src.simps) simp
      also have "\<dots> = i + 1 + length (takeWhile (\<lambda>n. n = 1) (drop (i + 1) szs))"
        using "1.IH"[OF True] one True by simp
      also have "\<dots> = i + length (takeWhile (\<lambda>n. n = 1) (drop i szs))"
        unfolding d using one by simp
      finally show ?thesis .
    qed
  qed
qed

lemma slicePrefix1sSize_dropWhile:
  "slicePrefix1sSize szs = dropWhile (\<lambda>n. n = 1) szs"
proof -
  have "first_non1_src szs 0 = length (takeWhile (\<lambda>n. n = 1) szs)"
    using first_non1_src_takeWhile[of 0 szs] by simp
  then have "slicePrefix1sSize szs = drop (length (takeWhile (\<lambda>n. n = 1) szs)) szs"
    by (simp only: slicePrefix1sSize_def)
  also have "\<dots> = dropWhile (\<lambda>n. n = 1) szs"
    by (rule dropWhile_eq_drop[symmetric])
  finally show ?thesis .
qed

lemma prod_list_dropWhile_ones:
  "prod_list (dropWhile (\<lambda>n. n = 1) szs) = prod_list (szs :: nat list)"
  by (induction szs) simp_all

lemma length_drop_ones:
  "length szs - length (dropWhile P szs) = length (takeWhile P szs)"
proof -
  have "length (takeWhile P szs) + length (dropWhile P szs) = length szs"
    by (simp flip: length_append)
  then show ?thesis by arith
qed

lemma all_indices_one: "all_indices (Suc 0 # ns) = map ((#) 0) (all_indices ns)"
  by simp

lemma read_drop_ones:
  "length strs = length szs \<Longrightarrow>
   map (\<lambda>idx. f (sum_list (map2 (*) idx strs))) (all_indices szs)
   = map (\<lambda>idx. f (sum_list (map2 (*) idx (drop (length (takeWhile (\<lambda>n. n = 1) szs)) strs))))
       (all_indices (dropWhile (\<lambda>n. n = 1) szs))"
proof (induction szs arbitrary: strs)
  case Nil
  then show ?case by simp
next
  case (Cons n ns)
  then obtain r rs where strs: "strs = r # rs" "length rs = length ns"
    by (cases strs) auto
  show ?case
  proof (cases "n = 1")
    case False
    then show ?thesis by simp
  next
    case True
    with Cons.IH[OF strs(2)] strs show ?thesis
      by (simp add: comp_def del: all_indices.simps add: all_indices_one)
  qed
qed

lemma view_drop_ones:
  assumes "length (strides src) = length (sizes src)"
  shows "\<exists>v st1. view st src (dropWhile (\<lambda>n. n = 1) (sizes src)) = Inr (v, st1)
          \<and> sizes v = dropWhile (\<lambda>n. n = 1) (sizes src)
          \<and> length (strides v) = length (sizes v)
          \<and> storage v = storage src \<and> storages st1 = storages st
          \<and> elements st1 v = elements st src"
proof -
  let ?shape = "dropWhile (\<lambda>n. n = 1) (sizes src)"
  let ?k = "length (takeWhile (\<lambda>n. n = 1) (sizes src))"
  let ?v = "src\<lparr>sizes := ?shape, strides := drop ?k (strides src)\<rparr>"
  have p: "prod_list ?shape = prod_list (sizes src)"
    by (rule prod_list_dropWhile_ones)
  have k: "length (sizes src) - length ?shape = ?k"
    by (rule length_drop_ones)
  have l: "length ?shape \<le> length (sizes src)"
    by (rule length_dropWhile_le)
  have dr: "drop ?k (sizes src) = ?shape"
    by (rule dropWhile_eq_drop[symmetric])
  have v: "view st src ?shape = Inr (new_view st ?v)"
    unfolding view_def Let_def k by (simp only: p l dr if_True simp_thms)
  have len: "length (strides ?v) = length (sizes ?v)"
    using assms k l by simp
  have "elements (snd (new_view st ?v)) (fst (new_view st ?v))
        = map (\<lambda>idx. read_at st (storage src)
                        (storage_offset src + sum_list (map2 (*) idx (drop ?k (strides src)))))
            (all_indices ?shape)"
    by (simp add: new_view_def elements_def address_def read_at_def)
  also have "\<dots> = map (\<lambda>idx. read_at st (storage src)
                        (storage_offset src + sum_list (map2 (*) idx (strides src))))
            (all_indices (sizes src))"
    by (rule read_drop_ones[OF assms, symmetric])
  also have "\<dots> = elements st src"
    by (simp add: elements_def address_def)
  finally have "elements (snd (new_view st ?v)) (fst (new_view st ?v)) = elements st src" .
  with v len show ?thesis by (simp add: new_view_def)
qed

lemma expand_geometry_Some:
  "length rs = length ss \<Longrightarrow> length ts = length ss \<Longrightarrow>
   (\<exists>strs. expand_geometry ss rs ts = Some strs) = list_all2 (\<lambda>s t. s = t \<or> s = 1) ss ts"
proof (induction ss rs ts rule: expand_geometry.induct)
  case 1
  show ?case by simp
next
  case (2 s ss r rs t ts)
  then show ?case by auto
qed simp_all

lemma expand_facts:
  assumes "length (strides v) = length (sizes v)"
  shows "(broadcastable (sizes v) target \<longrightarrow>
            (\<exists>b st2. expand st v target = Inr (b, st2) \<and> sizes b = target
                \<and> storage b = storage v \<and> storages st2 = storages st))
         \<and> (\<not> broadcastable (sizes v) target \<longrightarrow> expand st v target = Inl ShapeBroadcast)"
proof (cases "length (sizes v) \<le> length target")
  case False
  then show ?thesis by (simp add: broadcastable_def expand_def)
next
  case True
  with assms have
    "(\<exists>strs. expand_geometry (sizes v) (strides v)
               (drop (length target - length (sizes v)) target) = Some strs)
     = broadcastable (sizes v) target"
    by (simp add: expand_geometry_Some broadcastable_def)
  with True show ?thesis
    by (auto simp: expand_def new_view_def Let_def split: option.splits)
qed

lemma broadcastable_refl: "broadcastable szs szs"
  by (simp add: broadcastable_def list_all2_same)

lemma expand_inplace_facts:
  assumes "length (strides v) = length (sizes v)"
  shows "(broadcastable (sizes v) (sizes dst) \<longrightarrow>
            (\<exists>b st2. expand_inplace st dst v = Inr (b, st2) \<and> sizes b = sizes dst
                \<and> storage b = storage v \<and> storages st2 = storages st))
         \<and> (\<not> broadcastable (sizes v) (sizes dst) \<longrightarrow>
               expand_inplace st dst v = Inl ShapeBroadcast)"
proof (cases "sizes dst = sizes v")
  case True
  then show ?thesis by (simp add: expand_inplace_def broadcastable_refl)
next
  case False
  with expand_facts[OF assms, of "sizes dst" st] show ?thesis
    by (simp add: expand_inplace_def)
qed

text \<open>
  C5: for a value whose strides match its shape, \<^verbatim>\<open>slicePrefix1sSize\<close> drops exactly the
  longest run of leading dimensions of size 1; the view of the value in that shape
  succeeds, is on the storage of the value, changes no storage and reads the same
  elements. When the trimmed shape can be broadcast against the shape of the
  destination the expansion succeeds, has the shape of the destination, is still on
  the storage of the value and changes no storage (no copy), and \<^verbatim>\<open>copy_to\<close> is the
  element-wise write of the expansion into the cells of the destination. Otherwise
  \<^verbatim>\<open>copy_to\<close> fails with the shape-broadcast error.
\<close>

theorem copy_to_spec:
  assumes "length (strides src) = length (sizes src)"
  shows "slicePrefix1sSize (sizes src) = dropWhile (\<lambda>n. n = 1) (sizes src)
     \<and> (\<exists>v st1. view st src (slicePrefix1sSize (sizes src)) = Inr (v, st1)
          \<and> sizes v = dropWhile (\<lambda>n. n = 1) (sizes src)
          \<and> storage v = storage src \<and> storages st1 = storages st
          \<and> elements st1 v = elements st src
          \<and> (broadcastable (sizes v) (sizes dst) \<longrightarrow>
               (\<exists>b st2. expand_inplace st1 dst v = Inr (b, st2)
                  \<and> sizes b = sizes dst \<and> storage b = storage src
                  \<and> storages st2 = storages st
                  \<and> copy_to st dst src = copy_inplace st2 dst b
                  \<and> copy_to st dst src
                      = Inr (write_storage st2 (storage dst)
                               (zip (map (address dst) (all_indices (sizes dst)))
                                    (elements st2 b)))))
          \<and> (\<not> broadcastable (sizes v) (sizes dst) \<longrightarrow>
               copy_to st dst src = Inl ShapeBroadcast))"
proof -
  note d = slicePrefix1sSize_dropWhile[of "sizes src"]
  from view_drop_ones[OF assms, of st] obtain v st1 where
    v: "view st src (dropWhile (\<lambda>n. n = 1) (sizes src)) = Inr (v, st1)"
    and vs: "sizes v = dropWhile (\<lambda>n. n = 1) (sizes src)"
    and vl: "length (strides v) = length (sizes v)"
    and vst: "storage v = storage src" "storages st1 = storages st"
    and ve: "elements st1 v = elements st src"
    by blast
  note e = expand_inplace_facts[OF vl, of dst st1]
  have ok: "\<exists>b st2. expand_inplace st1 dst v = Inr (b, st2)
                  \<and> sizes b = sizes dst \<and> storage b = storage src
                  \<and> storages st2 = storages st
                  \<and> copy_to st dst src = copy_inplace st2 dst b
                  \<and> copy_to st dst src
                      = Inr (write_storage st2 (storage dst)
                               (zip (map (address dst) (all_indices (sizes dst)))
                                    (elements st2 b)))"
    if "broadcastable (sizes v) (sizes dst)"
  proof -
    from e that obtain b st2 where b: "expand_inplace st1 dst v = Inr (b, st2)"
      "sizes b = sizes dst" "storage b = storage v" "storages st2 = storages st1"
      by blast
    have c: "copy_to st dst src = copy_inplace st2 dst b"
      unfolding copy_to_def Let_def d v by (simp add: b(1))
    with b vst show ?thesis by (simp add: copy_inplace_def)
  qed
  have bad: "copy_to st dst src = Inl ShapeBroadcast"
    if "\<not> broadcastable (sizes v) (sizes dst)"
    using e that unfolding copy_to_def Let_def d v by simp
  from v vs vst ve ok bad show ?thesis unfolding d by blast
qed


theorem copy_to_spec_witness:
  "length (strides ex_row) = length (sizes ex_row)
   \<and> slicePrefix1sSize (sizes ex_row) = [3]
   \<and> broadcastable [3] (sizes ex_a)
   \<and> copy_to ex_state ex_a ex_row
        = Inr \<lparr>next_impl = 4, storages = [[4, 5, 6, 4, 5, 6], [0, 1]]\<rparr>
   \<and> slicePrefix1sSize (sizes ex_idx) = [2]
   \<and> \<not> broadcastable [2] (sizes ex_a)
   \<and> copy_to ex_state ex_a ex_idx = Inl ShapeBroadcast"
proof -
  have h: "length (strides ex_row) = length (sizes ex_row)"
    by (simp add: ex_row_def)
  have h': "length (strides ex_idx) = length (sizes ex_idx)"
    by (simp add: ex_idx_def)
  have s: "slicePrefix1sSize (sizes ex_row) = [3]"
    using copy_to_spec[OF h, of ex_state ex_a] by (simp add: ex_row_def)
  have s': "slicePrefix1sSize (sizes ex_idx) = [2]"
    using copy_to_spec[OF h', of ex_state ex_a] by (simp add: ex_idx_def)
  have b: "broadcastable [3] (sizes ex_a)" "\<not> broadcastable [2] (sizes ex_a)"
    by (simp_all add: broadcastable_def ex_a_def)
  have c: "copy_to ex_state ex_a ex_row
        = Inr \<lparr>next_impl = 4, storages = [[4, 5, 6, 4, 5, 6], [0, 1]]\<rparr>"
    by code_simp
  from copy_to_spec[OF h', of ex_state ex_a] s' b(2)
  have c': "copy_to ex_state ex_a ex_idx = Inl ShapeBroadcast"
    by (auto simp: ex_idx_def)
  from h s b c s' c' show ?thesis by simp
qed

subsection \<open>The boolean descriptor\<close>

text \<open>
  Advanced indexing with one index array on the first dimension and holes after it: the
  block of the index array comes first in the result and the other dimensions follow.
\<close>

lemma all_indices_length: "idx \<in> set (all_indices s) \<Longrightarrow> length idx = length s"
  by (induction s arbitrary: idx) auto

lemma assemble_holes:
  "length idx = length s \<Longrightarrow> assemble s (replicate (length s) None) bpos idx = Some idx"
proof (induction s arbitrary: idx)
  case Nil
  then show ?case by simp
next
  case (Cons n ns)
  then obtain i rest where "idx = i # rest" "length rest = length ns"
    by (cases idx) auto
  with Cons.IH[of rest] show ?case by simp
qed

lemma defined_dims_front: "defined_dims (Some x # replicate n None) = [0]"
proof -
  have "filter (\<lambda>p. (Some x # replicate n None) ! p \<noteq> None) [Suc 0..<Suc n] = []"
    by (auto simp: filter_empty_conv nth_Cons')
  then show ?thesis by (simp add: defined_dims_def upt_conv_Cons del: upt_Suc)
qed

lemma hole_dims_front: "hole_dims (Some x # replicate n None) = [Suc 0..<Suc n]"
proof -
  have "filter (\<lambda>p. (Some x # replicate n None) ! p = None) [Suc 0..<Suc n] = [Suc 0..<Suc n]"
    by (auto simp: filter_id_conv nth_Cons')
  then show ?thesis by (simp add: hole_dims_def upt_conv_Cons del: upt_Suc)
qed

lemma map_filter_holes: "List.map_filter id (replicate n None) = []"
  by (induction n) simp_all

lemma broadcast_rev_Nil: "broadcast_rev xs [] = Some xs"
  by (cases xs) simp_all

lemma block_shape_front: "block_shape (Some (b, vs) # replicate n None) = Some b"
  by (simp add: block_shape_def map_filter_holes broadcast_shapes_def broadcast_rev_Nil)

lemma block_position_front: "block_position [0] = 0"
  by (simp add: block_position_def)

lemma map_nth_tail: "map (\<lambda>p. (x # s) ! p) [Suc 0..<Suc (length s)] = s"
proof -
  have "map (\<lambda>p. (x # s) ! p) [Suc 0..<Suc (length s)] = map (\<lambda>p. s ! p) [0..<length s]"
    by (simp add: map_Suc_upt[symmetric] del: upt_Suc)
  then show ?thesis by (simp add: map_nth)
qed

lemma result_shape_front:
  "result_shape (m # s) (Some (b, vs) # replicate (length s) None) b = b @ s"
  by (simp add: result_shape_def defined_dims_front hole_dims_front block_position_front
        map_nth_tail del: upt_Suc)

lemma source_of_front_one:
  "length idx = length s \<Longrightarrow>
   source_of (Suc 0 # s) (Some ([Suc 0], [0]) # replicate (length s) None) [Suc 0] (0 # idx)
     = Some (0 # idx)"
  by (simp add: source_of_def defined_dims_front block_position_front broadcast_values_def
        broadcast_index_def flat_index_def assemble_holes)

lemma index_plan_front_one:
  assumes "scalar_type z = kLong" and "sizes z = [Suc 0]" and "elements st z = [0]"
    and "sizes u = Suc 0 # s"
  shows "index_plan st u [Some z] = Inr (Suc 0 # s, map ((#) 0) (all_indices s))"
proof -
  define srcs where
    "srcs = map (source_of (Suc 0 # s) (Some ([Suc 0], [0]) # replicate (length s) None) [Suc 0])
              (all_indices (Suc 0 # s))"
  have ia: "index_arrays st (sizes u) [Some z] = Inr [Some ([Suc 0], [0])]"
    using assms by (simp add: isIntegralType_def)
  have src: "srcs = map (\<lambda>idx. Some (0 # idx)) (all_indices s)"
    by (simp add: srcs_def source_of_front_one all_indices_length comp_def)
  have la: "list_all (\<lambda>s. s \<noteq> None) srcs"
    by (simp add: src list_all_iff)
  have mt: "map the srcs = map ((#) 0) (all_indices s)"
    by (simp add: src comp_def)
  have "index_plan st u [Some z]
        = (if list_all (\<lambda>s. s \<noteq> None) srcs then Inr (Suc 0 # s, map the srcs)
           else Inl PrimitiveError)"
    unfolding index_plan_def ia srcs_def
    by (simp add: assms(4) block_shape_front result_shape_front Let_def
          del: all_indices.simps)
  with la mt show ?thesis by simp
qed

lemma index_plan_front_none:
  assumes "scalar_type z = kLong" and "sizes z = [0]"
    and "sizes u = m # s"
  shows "index_plan st u [Some z] = Inr (0 # s, [])"
proof -
  have ia: "index_arrays st (sizes u) [Some z] = Inr [Some ([0], [])]"
    using assms by (simp add: isIntegralType_def elements_def)
  show ?thesis
    unfolding index_plan_def ia
    by (simp add: assms(3) block_shape_front result_shape_front)
qed

text \<open>The turn of the loop for a boolean, and the getter on a single boolean.\<close>

lemma boolToIndexingTensor_result:
  assumes "boolToIndexingTensor st r b = (t, st')"
  shows "sizes t = [if b then 1 else 0] \<and> scalar_type t = kLong \<and> device t = device r
         \<and> elements st' t = (if b then [0] else [])"
  using assms
  by (auto simp: boolToIndexingTensor_def zeros_def empty_tensor_def new_tensor_def options_def
        elements_def read_at_def address_def split: if_splits)

lemma unsqueeze_result:
  assumes "0 \<le> d" and "d \<le> dim t"
  shows "\<exists>r st1. unsqueeze st t d = Inr (r, st1) \<and> sizes r = insert_at (nat d) 1 (sizes t)
           \<and> storage r = storage t \<and> device r = device t \<and> scalar_type r = scalar_type t
           \<and> storages st1 = storages st"
  using assms by (simp add: unsqueeze_def new_view_def Let_def)

lemma applySlicing_body_boolean:
  assumes "0 \<le> d" and "d \<le> dim result" and "length outIndices \<le> nat d"
  shows "\<exists>r st1 t st2.
           unsqueeze st result d = Inr (r, st1)
           \<and> sizes r = insert_at (nat d) 1 (sizes result) \<and> storage r = storage result
           \<and> boolToIndexingTensor st1 r b = (t, st2)
           \<and> sizes t = [if b then 1 else 0] \<and> scalar_type t = kLong
           \<and> device t = device result
           \<and> applySlicing_body self specified_dims (result, d, outIndices, st) i (IdxBoolean b)
               = Inr (r, d + 1,
                      outIndices @ replicate (nat d - length outIndices) None @ [Some t], st2)"
proof -
  from unsqueeze_result[OF assms(1,2), of st] obtain r st1 where
    u: "unsqueeze st result d = Inr (r, st1)"
    and r: "sizes r = insert_at (nat d) 1 (sizes result)" "storage r = storage result"
      "device r = device result"
    by blast
  obtain t st2 where bt: "boolToIndexingTensor st1 r b = (t, st2)"
    by (cases "boolToIndexingTensor st1 r b") blast
  note f = boolToIndexingTensor_result[OF bt]
  have "applySlicing_body self specified_dims (result, d, outIndices, st) i (IdxBoolean b)
          = Inr (r, d + 1,
                 outIndices @ replicate (nat d - length outIndices) None @ [Some t], st2)"
    using assms(1,3) resize_append[of outIndices "nat d" "Some t"]
    by (simp add: u bt handle_tensor_def nat_add_distrib)
  with u r bt f show ?thesis by simp
qed

lemma get_item_boolean:
  "\<exists>r st'. get_item st a [IdxBoolean b] = Inr (r, st')
           \<and> sizes r = (if b then 1 else 0) # sizes a"
proof -
  have d: "(0::int) \<le> dim a" by (simp add: dim_def)
  from applySlicing_body_boolean[OF _ d, of "[]" st b a 0 0] obtain r st1 t st2 where
    u: "unsqueeze st a 0 = Inr (r, st1)"
    and r: "sizes r = insert_at (nat 0) 1 (sizes a)"
    and bt: "boolToIndexingTensor st1 r b = (t, st2)"
    and t: "sizes t = [if b then 1 else 0]" "scalar_type t = kLong" "device t = device a"
    and body: "applySlicing_body a 0 (a, 0, [], st) 0 (IdxBoolean b)
               = Inr (r, 0 + 1, [] @ replicate (nat 0 - length ([]::Tensor option list)) None
                                   @ [Some t], st2)"
    by auto
  from u have dr: "device r = device a"
    by (auto simp: unsqueeze_def new_view_def Let_def split: if_splits)
  from r have rs: "sizes r = Suc 0 # sizes a" by (simp add: insert_at_def)
  note e = boolToIndexingTensor_result[OF bt]
  have as: "applySlicing st a [IdxBoolean b] [] = Inr (r, [Some t], st2)"
    using body by (simp add: applySlicing_def count_specified_dimensions_def dim_def)
  have tc: "typeConvertIndices st2 r [Some t] = ([Some t], st2)"
    using t dr by (simp add: to_def options_def)
  have gi: "get_item st a [IdxBoolean b] = index st2 r [Some t]"
    by (simp add: get_item_def as dispatch_index_def tc del: typeConvertIndices.simps)
  show ?thesis
  proof (cases b)
    case True
    with t e have "index_plan st2 r [Some t] = Inr (Suc 0 # sizes a, map ((#) 0) (all_indices (sizes a)))"
      by (intro index_plan_front_one rs) simp_all
    with True gi show ?thesis by (simp add: index_def new_tensor_def)
  next
    case False
    with t have "index_plan st2 r [Some t] = Inr (0 # sizes a, [])"
      by (intro index_plan_front_none[OF _ _ rs]) simp_all
    with False gi show ?thesis by (simp add: index_def new_tensor_def)
  qed
qed

text \<open>
  C4: with the cursor inside the running result, the turn of the loop for a boolean
  unsqueezes the running result at the cursor (a dimension of size 1 is inserted there),
  makes a 1-dimensional long-integer index array of shape \<open>[1]\<close> for true and \<open>[0]\<close>
  for false on the device of the result, puts it on the pending list at the cursor and
  moves the cursor by one. For every array \<open>a\<close>, get with the single descriptor true
  succeeds with shape 1 followed by the shape of \<open>a\<close>, and with the single descriptor
  false with shape 0 followed by the shape of \<open>a\<close>.
\<close>

theorem boolean_descriptor:
  "(0 \<le> d \<and> d \<le> dim result \<and> length outIndices \<le> nat d \<longrightarrow>
      (\<exists>r st1 t st2.
           unsqueeze st result d = Inr (r, st1)
           \<and> sizes r = insert_at (nat d) 1 (sizes result) \<and> storage r = storage result
           \<and> boolToIndexingTensor st1 r b = (t, st2)
           \<and> sizes t = [if b then 1 else 0] \<and> scalar_type t = kLong
           \<and> device t = device result
           \<and> applySlicing_body self specified_dims (result, d, outIndices, st) i (IdxBoolean b)
               = Inr (r, d + 1,
                      outIndices @ replicate (nat d - length outIndices) None @ [Some t], st2)))
   \<and> (\<exists>r st'. get_item st a [IdxBoolean True] = Inr (r, st')
          \<and> sizes r = 1 # sizes a \<and> sizes r ! 0 = 1)
   \<and> (\<exists>r st'. get_item st a [IdxBoolean False] = Inr (r, st')
          \<and> sizes r = 0 # sizes a \<and> sizes r ! 0 = 0)"
proof -
  have step: "\<exists>r st1 t st2.
           unsqueeze st result d = Inr (r, st1)
           \<and> sizes r = insert_at (nat d) 1 (sizes result) \<and> storage r = storage result
           \<and> boolToIndexingTensor st1 r b = (t, st2)
           \<and> sizes t = [if b then 1 else 0] \<and> scalar_type t = kLong
           \<and> device t = device result
           \<and> applySlicing_body self specified_dims (result, d, outIndices, st) i (IdxBoolean b)
               = Inr (r, d + 1,
                      outIndices @ replicate (nat d - length outIndices) None @ [Some t], st2)"
    if "0 \<le> d \<and> d \<le> dim result \<and> length outIndices \<le> nat d"
    using that applySlicing_body_boolean[of d result outIndices st b self specified_dims i]
    by blast
  from get_item_boolean[of st a True]
  have t: "\<exists>r st'. get_item st a [IdxBoolean True] = Inr (r, st')
          \<and> sizes r = 1 # sizes a \<and> sizes r ! 0 = 1"
    by auto
  from get_item_boolean[of st a False]
  have f: "\<exists>r st'. get_item st a [IdxBoolean False] = Inr (r, st')
          \<and> sizes r = 0 # sizes a \<and> sizes r ! 0 = 0"
    by auto
  from step t f show ?thesis by blast
qed

theorem boolean_descriptor_witness:
  "(0::int) \<le> 1 \<and> 1 \<le> dim ex_a \<and> length ([] :: Tensor option list) \<le> nat 1
   \<and> applySlicing_body ex_a 0 (ex_a, 1, [], ex_state) 0 (IdxBoolean True)
       = Inr (\<lparr>impl = 2, storage = 0, storage_offset = 0, sizes = [2, 1, 3],
                strides = [3, 3, 1], scalar_type = kFloat, device = kCPU\<rparr>,
              2,
              [None, Some \<lparr>impl = 3, storage = 2, storage_offset = 0, sizes = [1],
                           strides = [1], scalar_type = kLong, device = kCPU\<rparr>],
              \<lparr>next_impl = 4, storages = [[1, 2, 3, 4, 5, 6], [0, 1], [0]]\<rparr>)
   \<and> get_item ex_state ex_a [IdxBoolean True]
       = Inr (\<lparr>impl = 4, storage = 3, storage_offset = 0, sizes = [1, 2, 3],
                strides = [6, 3, 1], scalar_type = kFloat, device = kCPU\<rparr>,
              \<lparr>next_impl = 5,
               storages = [[1, 2, 3, 4, 5, 6], [0, 1], [0], [1, 2, 3, 4, 5, 6]]\<rparr>)
   \<and> get_item ex_state ex_a [IdxBoolean False]
       = Inr (\<lparr>impl = 4, storage = 3, storage_offset = 0, sizes = [0, 2, 3],
                strides = [6, 3, 1], scalar_type = kFloat, device = kCPU\<rparr>,
              \<lparr>next_impl = 5, storages = [[1, 2, 3, 4, 5, 6], [0, 1], [], []]\<rparr>)"
proof -
  have h: "(0::int) \<le> 1 \<and> 1 \<le> dim ex_a \<and> length ([] :: Tensor option list) \<le> nat 1"
    by (simp add: dim_def ex_a_def)
  from boolean_descriptor[where d = 1 and result = ex_a and outIndices = "[]"
      and st = ex_state and b = True and self = ex_a and specified_dims = 0 and i = 0
      and a = ex_a] h
  obtain r t st2 where
    o: "applySlicing_body ex_a 0 (ex_a, 1, [], ex_state) 0 (IdxBoolean True)
       = Inr (r, 1 + 1, [] @ replicate (nat 1 - length ([] :: Tensor option list)) None @ [Some t],
              st2)"
    by blast
  have s: "applySlicing_body ex_a 0 (ex_a, 1, [], ex_state) 0 (IdxBoolean True)
       = Inr (\<lparr>impl = 2, storage = 0, storage_offset = 0, sizes = [2, 1, 3],
                strides = [3, 3, 1], scalar_type = kFloat, device = kCPU\<rparr>,
              2,
              [None, Some \<lparr>impl = 3, storage = 2, storage_offset = 0, sizes = [1],
                           strides = [1], scalar_type = kLong, device = kCPU\<rparr>],
              \<lparr>next_impl = 4, storages = [[1, 2, 3, 4, 5, 6], [0, 1], [0]]\<rparr>)"
    by code_simp
  have t: "get_item ex_state ex_a [IdxBoolean True]
       = Inr (\<lparr>impl = 4, storage = 3, storage_offset = 0, sizes = [1, 2, 3],
                strides = [6, 3, 1], scalar_type = kFloat, device = kCPU\<rparr>,
              \<lparr>next_impl = 5,
               storages = [[1, 2, 3, 4, 5, 6], [0, 1], [0], [1, 2, 3, 4, 5, 6]]\<rparr>)"
    by code_simp
  have f: "get_item ex_state ex_a [IdxBoolean False]
       = Inr (\<lparr>impl = 4, storage = 3, storage_offset = 0, sizes = [0, 2, 3],
                strides = [6, 3, 1], scalar_type = kFloat, device = kCPU\<rparr>,
              \<lparr>next_impl = 5, storages = [[1, 2, 3, 4, 5, 6], [0, 1], [], []]\<rparr>)"
    by code_simp
  from h o s t f show ?thesis by blast
qed

end
